theory Spec2Isabelle
  imports Complex_Main "HOL-Library.Word"
begin

section \<open>JavaScript strings\<close>

text \<open>
  A JavaScript string is a list of 16-bit code units, a \<^verbatim>\<open>Uint8Array\<close> a list of bytes;
  \<^verbatim>\<open>s.length\<close> is the number of code units.
\<close>

type_synonym byte = "8 word"
type_synonym js_string = "16 word list"

text \<open>A string literal of the source, all of whose characters are ASCII.\<close>

definition js :: "string \<Rightarrow> js_string" where
  "js s = map (\<lambda>c. of_nat (of_char c)) s"

text \<open>
  The characters of a string are its scalar values: a high surrogate followed by a low one is
  one supplementary code point, any other surrogate stands for U+FFFD (this is the conversion
  every platform interface applies that takes a string as text).
\<close>

definition is_high_surrogate :: "16 word \<Rightarrow> bool" where
  "is_high_surrogate u \<longleftrightarrow> 0xD800 \<le> unat u \<and> unat u \<le> 0xDBFF"

definition is_low_surrogate :: "16 word \<Rightarrow> bool" where
  "is_low_surrogate u \<longleftrightarrow> 0xDC00 \<le> unat u \<and> unat u \<le> 0xDFFF"

fun scalar_values :: "js_string \<Rightarrow> nat list" where
  "scalar_values [] = []"
| "scalar_values [u] =
     (if is_high_surrogate u \<or> is_low_surrogate u then [0xFFFD] else [unat u])"
| "scalar_values (u # v # us) =
     (if is_high_surrogate u \<and> is_low_surrogate v
        then (0x10000 + (unat u - 0xD800) * 0x400 + (unat v - 0xDC00)) # scalar_values us
      else if is_high_surrogate u \<or> is_low_surrogate u
        then 0xFFFD # scalar_values (v # us)
      else unat u # scalar_values (v # us))"

section \<open>Ghost Chat: the room store and the room-operations handler\<close>

text \<open>
  The edge function \<^verbatim>\<open>room-operations\<close> is a stateless request handler over three
  PostgreSQL tables. The tables are modelled as lists of rows, every statement the handler
  sends is one atomic function on the store, and every value the handler draws from its
  environment (clock readings, random numbers, generated UUIDs, the platform's case mapping)
  is an explicit argument. Room codes are JavaScript strings, as the handler measures and
  maps them; identifiers, session tokens and messages are only ever compared for equality and
  are byte strings. Timestamps are milliseconds since the epoch.
\<close>

subsection \<open>Tables\<close>

type_synonym uuid = string
type_synonym timestamp = int

text \<open>\<^verbatim>\<open>status VARCHAR(20) CHECK (status IN ('waiting', 'active', 'expired'))\<close>\<close>

datatype room_status = waiting | active | expired

record room =
  r_id :: uuid
  r_code :: js_string
  r_duration_minutes :: int
  r_created_at :: timestamp
  r_expires_at :: timestamp
  r_status :: room_status
  r_participant_count :: int

record participant =
  p_id :: uuid
  p_room_id :: uuid
  p_session_token :: string
  p_participant_number :: int
  p_created_at :: timestamp

datatype message_type = text_message | image_message

record message =
  m_id :: uuid
  m_room_id :: uuid
  m_sender_id :: string
  m_content :: "string option"
  m_image_url :: "string option"
  m_message_type :: message_type
  m_created_at :: timestamp

record store =
  rooms :: "room list"
  room_participants :: "participant list"
  messages :: "message list"

subsection \<open>Statements against the store\<close>

text \<open>
  \<^verbatim>\<open>INSERT INTO rooms\<close>: \<open>id\<close> is the primary key, \<open>code\<close> is \<^verbatim>\<open>VARCHAR(8) UNIQUE\<close>
  (at most eight characters). \<open>None\<close> is the error the client library reports as
  \<^verbatim>\<open>roomError\<close>.
\<close>

definition insert_room :: "store \<Rightarrow> room \<Rightarrow> store option" where
  "insert_room st r =
     (if r_id r \<in> set (map r_id (rooms st)) then None
      else if r_code r \<in> set (map r_code (rooms st)) then None
      else if length (scalar_values (r_code r)) > 8 then None
      else Some (st\<lparr>rooms := rooms st @ [r]\<rparr>))"

text \<open>
  \<^verbatim>\<open>INSERT INTO room_participants\<close>: primary key, \<^verbatim>\<open>session_token TEXT NOT NULL UNIQUE\<close>,
  \<^verbatim>\<open>CHECK (participant_number IN (1, 2))\<close>, the foreign key to \<open>rooms\<close>, and the unique index
  \<^verbatim>\<open>idx_room_participant_number\<close> on \<open>(room_id, participant_number)\<close>.
\<close>

definition insert_participant :: "store \<Rightarrow> participant \<Rightarrow> store option" where
  "insert_participant st p =
     (if p_id p \<in> set (map p_id (room_participants st)) then None
      else if p_session_token p \<in> set (map p_session_token (room_participants st)) then None
      else if p_participant_number p \<noteq> 1 \<and> p_participant_number p \<noteq> 2 then None
      else if p_room_id p \<notin> set (map r_id (rooms st)) then None
      else if (p_room_id p, p_participant_number p) \<in>
                set (map (\<lambda>q. (p_room_id q, p_participant_number q)) (room_participants st))
           then None
      else Some (st\<lparr>room_participants := room_participants st @ [p]\<rparr>))"

text \<open>\<^verbatim>\<open>DELETE FROM rooms WHERE id = ...\<close>; both child tables are \<^verbatim>\<open>ON DELETE CASCADE\<close>.\<close>

definition delete_room :: "store \<Rightarrow> uuid \<Rightarrow> store" where
  "delete_room st rid =
     st\<lparr>rooms := filter (\<lambda>r. r_id r \<noteq> rid) (rooms st),
        room_participants := filter (\<lambda>p. p_room_id p \<noteq> rid) (room_participants st),
        messages := filter (\<lambda>m. m_room_id m \<noteq> rid) (messages st)\<rparr>"

text \<open>
  \<^verbatim>\<open>.select('*').eq('code', c).maybeSingle()\<close>: no row is \<open>null\<close> without an error, one row
  is that row, several rows are an error.
\<close>

datatype 'a query_result = Row 'a | NoRow | QueryError

definition select_room_by_code :: "store \<Rightarrow> js_string \<Rightarrow> room query_result" where
  "select_room_by_code st c =
     (case filter (\<lambda>r. r_code r = c) (rooms st) of
        [] \<Rightarrow> NoRow
      | [r] \<Rightarrow> Row r
      | _ \<Rightarrow> QueryError)"

text \<open>
  \<^verbatim>\<open>.select().eq('room_id', rid).eq('session_token', t).single()\<close>: anything but exactly one
  row is an error.
\<close>

definition select_participant :: "store \<Rightarrow> uuid \<Rightarrow> string \<Rightarrow> participant option" where
  "select_participant st rid t =
     (case filter (\<lambda>p. p_room_id p = rid \<and> p_session_token p = t) (room_participants st) of
        [p] \<Rightarrow> Some p
      | _ \<Rightarrow> None)"

text \<open>
  \<^verbatim>\<open>.update({status: 'active', participant_count: 2}).eq('id', rid).select().single()\<close>.
  The only condition of the statement is the row's id: neither the current status nor the
  current participant count is tested. With \<^verbatim>\<open>.single()\<close> anything but one affected row
  is an error and the statement has no effect.
\<close>

definition set_active :: "room \<Rightarrow> room" where
  "set_active r = r\<lparr>r_status := active, r_participant_count := 2\<rparr>"

definition update_room_active :: "store \<Rightarrow> uuid \<Rightarrow> (room \<times> store) option" where
  "update_room_active st rid =
     (case filter (\<lambda>r. r_id r = rid) (rooms st) of
        [r] \<Rightarrow> Some (set_active r,
                    st\<lparr>rooms := map (\<lambda>x. if r_id x = rid then set_active x else x) (rooms st)\<rparr>)
      | _ \<Rightarrow> None)"

text \<open>
  \<^verbatim>\<open>.select('*').eq('room_id', rid).order('created_at', { ascending: true })\<close>
\<close>

definition select_messages :: "store \<Rightarrow> uuid \<Rightarrow> message list" where
  "select_messages st rid = sort_key m_created_at (filter (\<lambda>m. m_room_id m = rid) (messages st))"

text \<open>
  The SQL function \<^verbatim>\<open>cleanup_expired_rooms()\<close>: mark every room past its deadline as
  expired, then delete the expired rooms whose deadline is more than one hour old.
\<close>

definition cleanup_expired_rooms :: "store \<Rightarrow> timestamp \<Rightarrow> store" where
  "cleanup_expired_rooms st now =
     (let marked = map (\<lambda>r. if r_expires_at r < now \<and> r_status r \<noteq> expired
                              then r\<lparr>r_status := expired\<rparr> else r) (rooms st);
          doomed = map r_id (filter (\<lambda>r. r_status r = expired \<and> r_expires_at r < now - 3600000) marked)
      in st\<lparr>rooms := filter (\<lambda>r. r_id r \<notin> set doomed) marked,
            room_participants := filter (\<lambda>p. p_room_id p \<notin> set doomed) (room_participants st),
            messages := filter (\<lambda>m. m_room_id m \<notin> set doomed) (messages st)\<rparr>)"

subsection \<open>Random values\<close>

text \<open>
  \<^verbatim>\<open>generateRoomCode\<close>: six draws \<^verbatim>\<open>Math.floor(Math.random() * chars.length)\<close> index the
  32-symbol alphabet. A draw is a number from 0 to 31, that is, a 5-bit word; the i-th draw
  of a call is \<open>draw i\<close>.
\<close>

definition chars :: js_string where
  "chars = js ''ABCDEFGHJKLMNPQRSTUVWXYZ23456789''"

definition generateRoomCode :: "(nat \<Rightarrow> 5 word) \<Rightarrow> js_string" where
  "generateRoomCode draw = map (\<lambda>i. chars ! unat (draw i)) [0..<6]"

text \<open>
  \<^verbatim>\<open>generateSessionToken\<close>: 32 random bytes, each printed as two lowercase hexadecimal
  digits (\<^verbatim>\<open>byte.toString(16).padStart(2, '0')\<close>).
\<close>

definition hex_digit :: "nat \<Rightarrow> char" where
  "hex_digit n = ''0123456789abcdef'' ! n"

definition hex_byte :: "8 word \<Rightarrow> string" where
  "hex_byte b = [hex_digit (unat b div 16), hex_digit (unat b mod 16)]"

definition generateSessionToken :: "(nat \<Rightarrow> 8 word) \<Rightarrow> string" where
  "generateSessionToken rnd = concat (map (\<lambda>i. hex_byte (rnd i)) [0..<32])"

text \<open>
  What one invocation of the handler reads from outside the request and the store. Every
  insert takes its own reading of the database clock for the column default
  \<^verbatim>\<open>created_at ... DEFAULT now()\<close>: one for the room row, one for the participant row.
\<close>

record env =
  date_now :: timestamp               \<comment> \<open>\<^verbatim>\<open>Date.now()\<close> / \<^verbatim>\<open>new Date()\<close> in the handler\<close>
  db_now_room :: timestamp            \<comment> \<open>\<^verbatim>\<open>now()\<close> at the insert into \<open>rooms\<close>\<close>
  db_now_participant :: timestamp     \<comment> \<open>\<^verbatim>\<open>now()\<close> at the insert into \<open>room_participants\<close>\<close>
  code_draws :: "nat \<Rightarrow> 5 word"       \<comment> \<open>the draws of \<^verbatim>\<open>Math.random()\<close>\<close>
  token_bytes :: "nat \<Rightarrow> 8 word"      \<comment> \<open>the bytes of \<^verbatim>\<open>crypto.getRandomValues\<close>\<close>
  room_uuid :: uuid                   \<comment> \<open>\<^verbatim>\<open>gen_random_uuid()\<close> for a room row\<close>
  participant_uuid :: uuid            \<comment> \<open>\<^verbatim>\<open>gen_random_uuid()\<close> for a participant row\<close>

subsection \<open>Requests and responses\<close>

text \<open>
  The request body, by its \<open>action\<close> field. The client library sends the five actions
  \<open>create\<close>, \<open>join\<close>, \<open>get\<close>, \<open>getMessages\<close> and \<open>sendMessage\<close>; any other action string
  is \<open>OtherAction\<close>. \<open>durationMinutes\<close> is a JSON number: the interface declares
  \<^verbatim>\<open>number\<close> and the handler does not test that it is an integer. It is modelled by its
  value, a rational.
\<close>

datatype request =
    Create rat
  | Join js_string
  | Get js_string string
  | GetMessages uuid string
  | SendMessage uuid string "string option" message_type "string option"
  | OtherAction string

datatype payload =
    RoomSession room string int      \<comment> \<open>\<^verbatim>\<open>{ room, sessionToken, participantNumber }\<close>\<close>
  | RoomView room int                \<comment> \<open>\<^verbatim>\<open>{ room, participantNumber }\<close>\<close>
  | MessageList "message list"       \<comment> \<open>\<^verbatim>\<open>{ messages }\<close>\<close>
  | Error string                     \<comment> \<open>\<^verbatim>\<open>{ error }\<close>\<close>

text \<open>A response is the HTTP status and the JSON body.\<close>

type_synonym response = "nat \<times> payload"

subsection \<open>The action \<open>create\<close>\<close>

text \<open>
  The column \<open>duration_minutes\<close> is an \<^verbatim>\<open>INTEGER\<close>: the database accepts an integral number
  and rejects any other with an error, which the handler sees as \<^verbatim>\<open>roomError\<close>.
\<close>

definition integer_column :: "rat \<Rightarrow> int option" where
  "integer_column x = (if of_int \<lfloor>x\<rfloor> = x then Some \<lfloor>x\<rfloor> else None)"

text \<open>
  \<^verbatim>\<open>new Date(Date.now() + durationMinutes * 60 * 1000)\<close>: a date holds whole milliseconds,
  the clock reads whole milliseconds after the epoch, and the fraction of the sum is dropped. A
  fraction arises only for a duration that the insert below rejects.
\<close>

definition create :: "store \<Rightarrow> env \<Rightarrow> rat \<Rightarrow> store \<times> response" where
  "create st e durationMinutes =
     (if durationMinutes = 0 \<or> durationMinutes < 1 \<or> durationMinutes > 120
      then (st, (400, Error ''Invalid duration. Must be between 1 and 120 minutes.''))
      else
        let code = generateRoomCode (code_draws e);
            sessionToken = generateSessionToken (token_bytes e);
            expiresAt = date_now e + \<lfloor>durationMinutes * 60 * 1000\<rfloor>
        in case integer_column durationMinutes of
             None \<Rightarrow> (st, (500, Error ''Failed to create room''))
           | Some duration_minutes \<Rightarrow>
               (let room = \<lparr>r_id = room_uuid e, r_code = code,
                            r_duration_minutes = duration_minutes,
                            r_created_at = db_now_room e, r_expires_at = expiresAt,
                            r_status = waiting, r_participant_count = 1\<rparr>
                in case insert_room st room of
                     None \<Rightarrow> (st, (500, Error ''Failed to create room''))
                   | Some st1 \<Rightarrow>
                       (case insert_participant st1
                               \<lparr>p_id = participant_uuid e, p_room_id = r_id room,
                                p_session_token = sessionToken, p_participant_number = 1,
                                p_created_at = db_now_participant e\<rparr> of
                          None \<Rightarrow> (delete_room st1 (r_id room),
                                    (500, Error ''Failed to register as participant''))
                        | Some st2 \<Rightarrow> (st2, (200, RoomSession room sessionToken 1)))))"

subsection \<open>The action \<open>join\<close>\<close>

text \<open>
  \<^verbatim>\<open>code.toUpperCase()\<close> is the platform's Unicode case mapping, whose tables are not part of
  the repository: it is the parameter \<open>toUpperCase\<close> of the handler. \<^verbatim>\<open>code.length\<close> counts
  code units. \<open>ascii_toUpperCase\<close> is what the mapping does to a string whose characters are all
  ASCII; it stands in for the parameter where the handler is run on such codes.
\<close>

definition ascii_toUpperCase :: "js_string \<Rightarrow> js_string" where
  "ascii_toUpperCase s = map (\<lambda>u. if 0x61 \<le> unat u \<and> unat u \<le> 0x7A then u - 0x20 else u) s"

text \<open>
  The handler of \<open>join\<close> sends three statements, and other requests can be served between
  them. \<open>join_precheck\<close> is the handler up to the last of its optimistic checks (the
  lookup by code and the tests of deadline and status); \<open>join_register\<close> is the rest: the
  insert of the slot-2 participant row and the update of the room row.
\<close>

definition join_precheck ::
  "(js_string \<Rightarrow> js_string) \<Rightarrow> store \<Rightarrow> env \<Rightarrow> js_string \<Rightarrow> response + room" where
  "join_precheck toUpperCase st e code =
     (if code = [] \<or> length code \<noteq> 6 then Inl (400, Error ''Invalid room code'')
      else case select_room_by_code st (toUpperCase code) of
             QueryError \<Rightarrow> Inl (500, Error ''Database error'')
           | NoRow \<Rightarrow> Inl (404, Error ''Room not found'')
           | Row room \<Rightarrow>
               if r_expires_at room < date_now e then Inl (400, Error ''This room has expired'')
               else if r_status room = expired
                 then Inl (400, Error ''This room is no longer available'')
               else if r_status room = active \<and> r_participant_count room \<ge> 2
                 then Inl (400, Error ''This room is already full'')
               else Inr room)"

definition join_participant :: "env \<Rightarrow> room \<Rightarrow> participant" where
  "join_participant e room =
     \<lparr>p_id = participant_uuid e, p_room_id = r_id room,
      p_session_token = generateSessionToken (token_bytes e), p_participant_number = 2,
      p_created_at = db_now_participant e\<rparr>"

definition join_register :: "store \<Rightarrow> env \<Rightarrow> room \<Rightarrow> store \<times> response" where
  "join_register st e room =
     (let sessionToken = generateSessionToken (token_bytes e)
      in case insert_participant st (join_participant e room) of
           None \<Rightarrow> (st, (400, Error ''Failed to join room. It may be full.''))
         | Some st1 \<Rightarrow>
             (case update_room_active st1 (r_id room) of
                None \<Rightarrow> (st1, (500, Error ''Failed to join room''))
              | Some (updatedRoom, st2) \<Rightarrow> (st2, (200, RoomSession updatedRoom sessionToken 2))))"

definition join ::
  "(js_string \<Rightarrow> js_string) \<Rightarrow> store \<Rightarrow> env \<Rightarrow> js_string \<Rightarrow> store \<times> response" where
  "join toUpperCase st e code =
     (case join_precheck toUpperCase st e code of
        Inl resp \<Rightarrow> (st, resp)
      | Inr room \<Rightarrow> join_register st e room)"

subsection \<open>The actions \<open>get\<close> and \<open>getMessages\<close>, and the dispatch\<close>

definition get_room ::
  "(js_string \<Rightarrow> js_string) \<Rightarrow> store \<Rightarrow> js_string \<Rightarrow> string \<Rightarrow> response" where
  "get_room toUpperCase st code sessionToken =
     (if code = [] \<or> sessionToken = [] then (400, Error ''Missing code or session token'')
      else case select_room_by_code st (toUpperCase code) of
             Row room \<Rightarrow>
               (case select_participant st (r_id room) sessionToken of
                  None \<Rightarrow> (403, Error ''Not authorized to access this room'')
                | Some p \<Rightarrow> (200, RoomView room (p_participant_number p)))
           | _ \<Rightarrow> (404, Error ''Room not found''))"

definition getMessages :: "store \<Rightarrow> uuid \<Rightarrow> string \<Rightarrow> response" where
  "getMessages st roomId sessionToken =
     (if roomId = [] \<or> sessionToken = [] then (400, Error ''Missing roomId or session token'')
      else case select_participant st roomId sessionToken of
             None \<Rightarrow> (403, Error ''Not authorized to access this room'')
           | Some p \<Rightarrow> (200, MessageList (select_messages st roomId)))"

text \<open>
  The handler tests \<open>body.action\<close> against \<open>create\<close>, \<open>join\<close>, \<open>get\<close> and
  \<open>getMessages\<close>; every other action, \<open>sendMessage\<close> included, falls through to the
  final \<^verbatim>\<open>Invalid action\<close> response.
\<close>

fun room_operations ::
  "(js_string \<Rightarrow> js_string) \<Rightarrow> store \<Rightarrow> env \<Rightarrow> request \<Rightarrow> store \<times> response" where
  "room_operations toUpperCase st e (Create durationMinutes) = create st e durationMinutes"
| "room_operations toUpperCase st e (Join code) = join toUpperCase st e code"
| "room_operations toUpperCase st e (Get code sessionToken) =
     (st, get_room toUpperCase st code sessionToken)"
| "room_operations toUpperCase st e (GetMessages roomId sessionToken) =
     (st, getMessages st roomId sessionToken)"
| "room_operations toUpperCase st e (SendMessage roomId sessionToken content messageType imageUrl) =
     (st, (400, Error ''Invalid action''))"
| "room_operations toUpperCase st e (OtherAction a) = (st, (400, Error ''Invalid action''))"
subsection \<open>Two \<open>join\<close> requests served concurrently\<close>

text \<open>
  Every statement is atomic in the database, and the handler keeps nothing between requests,
  so a \<open>join\<close> in progress is one of four states: nothing sent yet, room looked up and checked
  (holding the row it read), slot-2 row inserted, or answered. \<open>join_step\<close> sends the next
  statement of one request against the store as it is at that moment.
\<close>

datatype join_proc = JStart | JChecked room | JInserted room | JDone response

definition join_step ::
  "(js_string \<Rightarrow> js_string) \<Rightarrow> env \<Rightarrow> js_string \<Rightarrow> store \<Rightarrow> join_proc \<Rightarrow> store \<times> join_proc"
  where
  "join_step toUpperCase e code st p =
     (case p of
        JStart \<Rightarrow>
          (case join_precheck toUpperCase st e code of
             Inl resp \<Rightarrow> (st, JDone resp)
           | Inr room \<Rightarrow> (st, JChecked room))
      | JChecked room \<Rightarrow>
          (case insert_participant st (join_participant e room) of
             None \<Rightarrow> (st, JDone (400, Error ''Failed to join room. It may be full.''))
           | Some st1 \<Rightarrow> (st1, JInserted room))
      | JInserted room \<Rightarrow>
          (case update_room_active st (r_id room) of
             None \<Rightarrow> (st, JDone (500, Error ''Failed to join room''))
           | Some (updatedRoom, st2) \<Rightarrow>
               (st2, JDone (200, RoomSession updatedRoom (generateSessionToken (token_bytes e)) 2)))
      | JDone resp \<Rightarrow> (st, JDone resp))"

text \<open>
  Two requests A and B against one store. A schedule is the order in which the database
  receives their statements: \<open>True\<close> is the next statement of A, \<open>False\<close> the next of B.
\<close>

type_synonym race_config = "store \<times> join_proc \<times> join_proc"

fun race ::
  "(js_string \<Rightarrow> js_string) \<Rightarrow> env \<Rightarrow> js_string \<Rightarrow> env \<Rightarrow> js_string \<Rightarrow> bool list \<Rightarrow>
     race_config \<Rightarrow> race_config" where
  "race up eA cA eB cB [] cfg = cfg"
| "race up eA cA eB cB (first # sched) (st, pa, pb) =
     (if first
      then (case join_step up eA cA st pa of
              (st', pa') \<Rightarrow> race up eA cA eB cB sched (st', pa', pb))
      else (case join_step up eB cB st pb of
              (st', pb') \<Rightarrow> race up eA cA eB cB sched (st', pa, pb')))"

text \<open>Slot \<open>n\<close> of room \<open>rid\<close> is bound: a participant row holds the pair.\<close>

definition slot_taken :: "store \<Rightarrow> uuid \<Rightarrow> int \<Rightarrow> bool" where
  "slot_taken st rid n \<longleftrightarrow>
     (rid, n) \<in> set (map (\<lambda>q. (p_room_id q, p_participant_number q)) (room_participants st))"

text \<open>
  The situation of the join race, for one of the two requests: the request carries a
  six-character code that finds the room \<open>r\<close>, \<open>r\<close> is the only row with its id, it is
  waiting with one participant and its deadline has not passed on the handler's clock, slot 2
  is free, and the UUID and the session token the request will use are not in the table yet.
\<close>

definition joinable ::
  "(js_string \<Rightarrow> js_string) \<Rightarrow> store \<Rightarrow> room \<Rightarrow> env \<Rightarrow> js_string \<Rightarrow> bool" where
  "joinable toUpperCase st r e code \<longleftrightarrow>
     length code = 6 \<and>
     select_room_by_code st (toUpperCase code) = Row r \<and>
     filter (\<lambda>x. r_id x = r_id r) (rooms st) = [r] \<and>
     r_status r = waiting \<and> r_participant_count r = 1 \<and>
     \<not> r_expires_at r < date_now e \<and>
     \<not> slot_taken st (r_id r) 2 \<and>
     participant_uuid e \<notin> set (map p_id (room_participants st)) \<and>
     generateSessionToken (token_bytes e) \<notin> set (map p_session_token (room_participants st))"

text \<open>The store after the request with environment \<open>e\<close> has inserted its row, and after it
  has also updated the room.\<close>

definition store_after_insert :: "store \<Rightarrow> room \<Rightarrow> env \<Rightarrow> store" where
  "store_after_insert st r e =
     st\<lparr>room_participants := room_participants st @ [join_participant e r]\<rparr>"

definition store_after_join :: "store \<Rightarrow> room \<Rightarrow> env \<Rightarrow> store" where
  "store_after_join st r e =
     (store_after_insert st r e)
       \<lparr>rooms := map (\<lambda>x. if r_id x = r_id r then set_active x else x) (rooms st)\<rparr>"

definition join_ok :: "room \<Rightarrow> env \<Rightarrow> response" where
  "join_ok r e = (200, RoomSession (set_active r) (generateSessionToken (token_bytes e)) 2)"

text \<open>The two responses by which \<open>join\<close> reports a full room: the one of the failed insert
  and the one of the optimistic check.\<close>

definition full_at_insert :: response where
  "full_at_insert = (400, Error ''Failed to join room. It may be full.'')"

definition full_at_precheck :: response where
  "full_at_precheck = (400, Error ''This room is already full'')"

definition room_full :: "response \<Rightarrow> bool" where
  "room_full resp \<longleftrightarrow> resp = full_at_insert \<or> resp = full_at_precheck"

text \<open>The configurations the race can reach from a joinable room: nobody has inserted, one
  request has inserted, or one request has joined.\<close>

inductive race_inv :: "store \<Rightarrow> room \<Rightarrow> env \<Rightarrow> env \<Rightarrow> race_config \<Rightarrow> bool"
  for st :: store and r :: room and eA :: env and eB :: env where
  nobody: "pa \<in> {JStart, JChecked r} \<Longrightarrow> pb \<in> {JStart, JChecked r} \<Longrightarrow>
     race_inv st r eA eB (st, pa, pb)"
| A_inserted: "pb \<in> {JStart, JChecked r, JDone full_at_insert} \<Longrightarrow>
     race_inv st r eA eB (store_after_insert st r eA, JInserted r, pb)"
| A_joined: "pb \<in> {JStart, JChecked r, JDone full_at_insert, JDone full_at_precheck} \<Longrightarrow>
     race_inv st r eA eB (store_after_join st r eA, JDone (join_ok r eA), pb)"
| B_inserted: "pa \<in> {JStart, JChecked r, JDone full_at_insert} \<Longrightarrow>
     race_inv st r eA eB (store_after_insert st r eB, pa, JInserted r)"
| B_joined: "pa \<in> {JStart, JChecked r, JDone full_at_insert, JDone full_at_precheck} \<Longrightarrow>
     race_inv st r eA eB (store_after_join st r eB, pa, JDone (join_ok r eB))"

text \<open>The number of statements a request has still to send, at most.\<close>

fun remaining :: "join_proc \<Rightarrow> nat" where
  "remaining JStart = 3"
| "remaining (JChecked r) = 2"
| "remaining (JInserted r) = 1"
| "remaining (JDone resp) = 0"

subsection \<open>Row level security of the table \<open>messages\<close> and the realtime channel\<close>

text \<open>
  The browser reads the table and subscribes to its changes with the project's public key,
  under row level security; the edge function uses the service role and bypasses it. What a
  policy can see of the caller is the request headers, of which only \<^verbatim>\<open>x-session-token\<close> is
  ever read. A \<^verbatim>\<open>SELECT\<close> policy is a predicate on the store, the header and the row.
\<close>

type_synonym select_policy = "store \<Rightarrow> string option \<Rightarrow> message \<Rightarrow> bool"

text \<open>Migration 20260210200118, \<^verbatim>\<open>"Participants can read messages"\<close>: the sender of the row is
  a participant of the row's room.\<close>

definition participants_can_read_by_sender :: select_policy where
  "participants_can_read_by_sender st hdr m \<longleftrightarrow>
     list_ex (\<lambda>rp. p_room_id rp = m_room_id m \<and> p_session_token rp = m_sender_id m)
       (room_participants st)"

text \<open>Migration 20260210200150, the same name recreated: the header carries the token of a
  participant of the row's room.\<close>

definition participants_can_read_by_header :: select_policy where
  "participants_can_read_by_header st hdr m \<longleftrightarrow>
     list_ex (\<lambda>rp. p_room_id rp = m_room_id m \<and> Some (p_session_token rp) = hdr)
       (room_participants st)"

text \<open>Migration 20260210200247, \<^verbatim>\<open>"Messages are readable" ... USING (true)\<close>.\<close>

definition messages_are_readable :: select_policy where
  "messages_are_readable st hdr m \<longleftrightarrow> True"

datatype policy_change = CreatePolicy string select_policy | DropPolicy string

fun apply_change :: "(string \<times> select_policy) list \<Rightarrow> policy_change \<Rightarrow> (string \<times> select_policy) list" where
  "apply_change ps (CreatePolicy name p) = ps @ [(name, p)]"
| "apply_change ps (DropPolicy name) = filter (\<lambda>(n, p). n \<noteq> name) ps"

text \<open>
  The three migrations of February 2026 in the order of their timestamps. Before them the
  table has no \<^verbatim>\<open>SELECT\<close> policy (the earlier ones were dropped by name).
\<close>

definition select_policy_migrations :: "policy_change list" where
  "select_policy_migrations =
     [CreatePolicy ''Participants can read messages'' participants_can_read_by_sender,
      DropPolicy ''Participants can read messages'',
      CreatePolicy ''Participants can read messages'' participants_can_read_by_header,
      DropPolicy ''Participants can read messages'',
      CreatePolicy ''Messages are readable'' messages_are_readable]"

definition messages_select_policies :: "(string \<times> select_policy) list" where
  "messages_select_policies = foldl apply_change [] select_policy_migrations"

text \<open>Permissive policies are combined with \<open>or\<close>; without any policy nothing is visible.\<close>

definition select_allowed :: "store \<Rightarrow> string option \<Rightarrow> message \<Rightarrow> bool" where
  "select_allowed st hdr m \<longleftrightarrow> list_ex (\<lambda>(n, p). p st hdr m) messages_select_policies"

text \<open>
  \<^verbatim>\<open>subscribeToMessages(roomId, onMessage)\<close> opens the channel with the filter
  \<^verbatim>\<open>room_id=eq.${roomId}\<close> on \<^verbatim>\<open>INSERT\<close> into \<open>messages\<close> and passes no token. The realtime
  service hands an inserted row to a subscriber when the row passes the filter and the
  subscriber may select it.
\<close>

definition subscription_delivers :: "store \<Rightarrow> string option \<Rightarrow> uuid \<Rightarrow> message \<Rightarrow> bool" where
  "subscription_delivers st hdr roomId m \<longleftrightarrow> m_room_id m = roomId \<and> select_allowed st hdr m"

text \<open>A session token is bound to a room: a participant row of the room carries it.\<close>

definition bound_token :: "store \<Rightarrow> uuid \<Rightarrow> string \<Rightarrow> bool" where
  "bound_token st rid t \<longleftrightarrow>
     list_ex (\<lambda>rp. p_room_id rp = rid \<and> p_session_token rp = t) (room_participants st)"

section \<open>Ghost Chat: the client-side encryption of messages\<close>

text \<open>
  The module encrypts and decrypts in the browser with the platform's \<^verbatim>\<open>TextEncoder\<close>,
  \<^verbatim>\<open>TextDecoder\<close>, \<^verbatim>\<open>btoa\<close>, \<^verbatim>\<open>atob\<close> and Web Crypto. A thrown exception is the left
  summand of the result.
\<close>

datatype js_error = InvalidCharacterError | OperationError | RangeError

subsection \<open>\<^verbatim>\<open>TextEncoder.encode\<close>\<close>

text \<open>The scalar values of the string, each written in UTF-8.\<close>

definition utf8_bytes :: "nat \<Rightarrow> byte list" where
  "utf8_bytes cp =
     (if cp < 0x80 then [of_nat cp]
      else if cp < 0x800 then [of_nat (0xC0 + cp div 64), of_nat (0x80 + cp mod 64)]
      else if cp < 0x10000 then
        [of_nat (0xE0 + cp div 4096), of_nat (0x80 + cp div 64 mod 64), of_nat (0x80 + cp mod 64)]
      else
        [of_nat (0xF0 + cp div 262144), of_nat (0x80 + cp div 4096 mod 64),
         of_nat (0x80 + cp div 64 mod 64), of_nat (0x80 + cp mod 64)])"

definition TextEncoder_encode :: "js_string \<Rightarrow> byte list" where
  "TextEncoder_encode s = concat (map utf8_bytes (scalar_values s))"

subsection \<open>\<^verbatim>\<open>TextDecoder.decode\<close>\<close>

text \<open>
  \<^verbatim>\<open>new TextDecoder()\<close> is the UTF-8 decoder with \<open>fatal\<close> and \<open>ignoreBOM\<close> both false: a
  malformed sequence is decoded as U+FFFD instead of throwing, and a leading byte order mark
  is removed from the output. \<open>utf8_decode\<close> is the decoder's state machine: the code point
  under construction, the number of continuation bytes still needed, and the bounds for the
  next continuation byte. A byte that breaks a sequence ends it with U+FFFD and is read again
  as the start of the next one.
\<close>

fun utf8_decode :: "nat \<Rightarrow> nat \<Rightarrow> nat \<Rightarrow> nat \<Rightarrow> byte list \<Rightarrow> nat list" where
  "utf8_decode cp needed lower upper [] = (if needed = 0 then [] else [0xFFFD])"
| "utf8_decode cp needed lower upper (b # bs) =
     (let n = unat b in
      if needed = 0 then
        if n \<le> 0x7F then n # utf8_decode 0 0 0x80 0xBF bs
        else if 0xC2 \<le> n \<and> n \<le> 0xDF then utf8_decode (n - 0xC0) 1 0x80 0xBF bs
        else if 0xE0 \<le> n \<and> n \<le> 0xEF then
          utf8_decode (n - 0xE0) 2 (if n = 0xE0 then 0xA0 else 0x80)
            (if n = 0xED then 0x9F else 0xBF) bs
        else if 0xF0 \<le> n \<and> n \<le> 0xF4 then
          utf8_decode (n - 0xF0) 3 (if n = 0xF0 then 0x90 else 0x80)
            (if n = 0xF4 then 0x8F else 0xBF) bs
        else 0xFFFD # utf8_decode 0 0 0x80 0xBF bs
      else if n < lower \<or> upper < n then 0xFFFD # utf8_decode 0 0 0x80 0xBF (b # bs)
      else if needed = 1 then (cp * 64 + (n - 0x80)) # utf8_decode 0 0 0x80 0xBF bs
      else utf8_decode (cp * 64 + (n - 0x80)) (needed - 1) 0x80 0xBF bs)"

definition strip_bom :: "nat list \<Rightarrow> nat list" where
  "strip_bom cps = (case cps of [] \<Rightarrow> [] | c # cs \<Rightarrow> if c = 0xFEFF then cs else c # cs)"

definition utf16_units :: "nat \<Rightarrow> js_string" where
  "utf16_units cp =
     (if cp < 0x10000 then [of_nat cp]
      else [of_nat (0xD800 + (cp - 0x10000) div 0x400), of_nat (0xDC00 + (cp - 0x10000) mod 0x400)])"

definition TextDecoder_decode :: "byte list \<Rightarrow> js_string" where
  "TextDecoder_decode bs = concat (map utf16_units (strip_bom (utf8_decode 0 0 0x80 0xBF bs)))"

text \<open>
  A string is well-formed UTF-16 when every surrogate is half of a pair: a high surrogate is
  followed by a low one, and a low one follows a high one. A scalar value is a code point
  that is not a surrogate.
\<close>

fun utf16_wellformed :: "js_string \<Rightarrow> bool" where
  "utf16_wellformed [] = True"
| "utf16_wellformed [u] = (\<not> is_high_surrogate u \<and> \<not> is_low_surrogate u)"
| "utf16_wellformed (u # v # us) =
     (if is_high_surrogate u then is_low_surrogate v \<and> utf16_wellformed us
      else \<not> is_low_surrogate u \<and> utf16_wellformed (v # us))"

definition is_scalar :: "nat \<Rightarrow> bool" where
  "is_scalar cp \<longleftrightarrow> cp < 0x110000 \<and> \<not> (0xD800 \<le> cp \<and> cp \<le> 0xDFFF)"

subsection \<open>\<^verbatim>\<open>btoa\<close> and \<^verbatim>\<open>atob\<close>\<close>

definition base64_alphabet :: js_string where
  "base64_alphabet = js ''ABCDEFGHIJKLMNOPQRSTUVWXYZabcdefghijklmnopqrstuvwxyz0123456789+/''"

definition base64_index :: "16 word \<Rightarrow> nat option" where
  "base64_index c = map_of (zip base64_alphabet [0..<64]) c"

text \<open>The 6-bit groups of a byte sequence; a last group of one or two bytes is filled with
  zero bits.\<close>

fun sextets :: "byte list \<Rightarrow> nat list" where
  "sextets (a # b # c # bs) =
     [unat a div 4, unat a mod 4 * 16 + unat b div 16, unat b mod 16 * 4 + unat c div 64,
      unat c mod 64] @ sextets bs"
| "sextets [a, b] = [unat a div 4, unat a mod 4 * 16 + unat b div 16, unat b mod 16 * 4]"
| "sextets [a] = [unat a div 4, unat a mod 4 * 16]"
| "sextets [] = []"

definition base64_encode :: "byte list \<Rightarrow> js_string" where
  "base64_encode bs =
     map (\<lambda>i. base64_alphabet ! i) (sextets bs) @ replicate ((3 - length bs mod 3) mod 3) 0x3D"

text \<open>
  \<^verbatim>\<open>String.fromCharCode(...combined)\<close> passes every byte as one argument of a single
  call. An engine accepts only so many arguments and throws a \<^verbatim>\<open>RangeError\<close> beyond; the
  bound depends on the engine and is the parameter \<open>limit\<close>. Within it the result has one
  code unit per byte.
\<close>

definition String_fromCharCode :: "nat \<Rightarrow> byte list \<Rightarrow> js_error + js_string" where
  "String_fromCharCode limit bs = (if limit < length bs then Inl RangeError else Inr (map ucast bs))"

text \<open>\<^verbatim>\<open>btoa\<close> throws on a code unit above 0xFF.\<close>

definition btoa :: "js_string \<Rightarrow> js_error + js_string" where
  "btoa s = (if list_ex (\<lambda>u. 0xFF < unat u) s then Inl InvalidCharacterError
             else Inr (base64_encode (map ucast s)))"

text \<open>
  \<^verbatim>\<open>atob\<close> is the forgiving base64 decoder: ASCII whitespace is removed; if the length is then
  a multiple of four, one or two trailing \<open>=\<close> are removed; a length of one more than a
  multiple of four, or a character outside the alphabet, is an \<^verbatim>\<open>InvalidCharacterError\<close>;
  the bits left over in a last group of two or three characters are dropped.
\<close>

definition ascii_whitespace :: "16 word \<Rightarrow> bool" where
  "ascii_whitespace u \<longleftrightarrow> u = 0x09 \<or> u = 0x0A \<or> u = 0x0C \<or> u = 0x0D \<or> u = 0x20"

definition strip_padding :: "js_string \<Rightarrow> js_string" where
  "strip_padding d =
     (if length d mod 4 = 0 \<and> d \<noteq> [] \<and> last d = 0x3D
      then (if butlast d \<noteq> [] \<and> last (butlast d) = 0x3D then butlast (butlast d) else butlast d)
      else d)"

fun unsextets :: "nat list \<Rightarrow> byte list" where
  "unsextets (a # b # c # d # xs) =
     [of_nat (a * 4 + b div 16), of_nat (b mod 16 * 16 + c div 4), of_nat (c mod 4 * 64 + d)]
     @ unsextets xs"
| "unsextets [a, b, c] = [of_nat (a * 4 + b div 16), of_nat (b mod 16 * 16 + c div 4)]"
| "unsextets [a, b] = [of_nat (a * 4 + b div 16)]"
| "unsextets [a] = []"
| "unsextets [] = []"

definition atob :: "js_string \<Rightarrow> js_error + js_string" where
  "atob s =
     (let d = strip_padding (filter (\<lambda>u. \<not> ascii_whitespace u) s)
      in if length d mod 4 = 1 then Inl InvalidCharacterError
         else if list_ex (\<lambda>u. base64_index u = None) d then Inl InvalidCharacterError
         else Inr (map ucast (unsextets (map (\<lambda>u. the (base64_index u)) d))))"

subsection \<open>The platform\<close>

text \<open>
  \<^verbatim>\<open>crypto.subtle\<close> is the platform's; the module only calls it. It is a parameter: the key
  derivation (\<^verbatim>\<open>importKey\<close> and \<^verbatim>\<open>deriveKey\<close> with PBKDF2 over password bytes, salt and
  iteration count), AES-GCM encryption of a byte sequence under a key and an IV, and AES-GCM
  decryption, which yields the plaintext or rejects (\<open>None\<close>, the thrown \<^verbatim>\<open>OperationError\<close>).
  With it comes the engine's bound on the number of arguments of one call.
\<close>

record 'k platform =
  pbkdf2_sha256 :: "byte list \<Rightarrow> byte list \<Rightarrow> nat \<Rightarrow> 'k"
  aes_gcm_encrypt :: "'k \<Rightarrow> byte list \<Rightarrow> byte list \<Rightarrow> byte list"
  aes_gcm_decrypt :: "'k \<Rightarrow> byte list \<Rightarrow> byte list \<Rightarrow> byte list option"
  max_arguments :: nat

subsection \<open>The module\<close>

definition getKey :: "'k platform \<Rightarrow> js_string \<Rightarrow> 'k" where
  "getKey pf roomCode =
     pbkdf2_sha256 pf (TextEncoder_encode roomCode)
       (TextEncoder_encode (js ''ghost-chat-salt-v1'')) 100000"

text \<open>\<^verbatim>\<open>crypto.getRandomValues(new Uint8Array(12))\<close>: twelve bytes, the i-th being \<open>rnd i\<close>.\<close>

definition random_iv :: "(nat \<Rightarrow> byte) \<Rightarrow> byte list" where
  "random_iv rnd = map rnd [0..<12]"

definition encryptMessage ::
  "'k platform \<Rightarrow> (nat \<Rightarrow> byte) \<Rightarrow> js_string \<Rightarrow> js_string \<Rightarrow> js_error + js_string" where
  "encryptMessage pf rnd text roomCode =
     (let key = getKey pf roomCode;
          iv = random_iv rnd;
          encoded = TextEncoder_encode text;
          ciphertext = aes_gcm_encrypt pf key iv encoded;
          combined = iv @ ciphertext
      in case String_fromCharCode (max_arguments pf) combined of
           Inl err \<Rightarrow> Inl err
         | Inr binary \<Rightarrow> btoa binary)"

text \<open>The body of the \<^verbatim>\<open>try\<close> block of \<open>decryptMessage\<close>, and the function with its
  \<^verbatim>\<open>catch\<close>, which turns every exception into the fixed string.\<close>

definition decryptMessage_try ::
  "'k platform \<Rightarrow> js_string \<Rightarrow> js_string \<Rightarrow> js_error + js_string" where
  "decryptMessage_try pf encryptedBase64 roomCode =
     (let key = getKey pf roomCode
      in case atob encryptedBase64 of
           Inl err \<Rightarrow> Inl err
         | Inr binary \<Rightarrow>
             (let combined = map ucast binary :: byte list;
                  iv = take 12 combined;
                  ciphertext = drop 12 combined
              in case aes_gcm_decrypt pf key iv ciphertext of
                   None \<Rightarrow> Inl OperationError
                 | Some decrypted \<Rightarrow> Inr (TextDecoder_decode decrypted)))"

definition decrypt_failed :: js_string where
  "decrypt_failed = js ''[Message could not be decrypted]''"

definition decryptMessage :: "'k platform \<Rightarrow> js_string \<Rightarrow> js_string \<Rightarrow> js_string" where
  "decryptMessage pf encryptedBase64 roomCode =
     (case decryptMessage_try pf encryptedBase64 roomCode of
        Inl err \<Rightarrow> decrypt_failed
      | Inr t \<Rightarrow> t)"

text \<open>
  A stand-in for the platform, to evaluate the module on concrete inputs: the key is the
  password followed by the salt, the ciphertext is the plaintext followed by a 16-byte tag
  computed from key and IV, decryption rejects a ciphertext whose tag does not fit, and a
  call takes up to 65536 arguments.
\<close>

definition standin_tag :: "byte list \<Rightarrow> byte list \<Rightarrow> byte list" where
  "standin_tag k iv = take 16 (k @ iv @ replicate 16 0)"

definition standin_platform :: "(byte list) platform" where
  "standin_platform =
     \<lparr>pbkdf2_sha256 = (\<lambda>password salt iterations. password @ salt),
      aes_gcm_encrypt = (\<lambda>k iv m. m @ standin_tag k iv),
      aes_gcm_decrypt = (\<lambda>k iv c.
         if 16 \<le> length c \<and> drop (length c - 16) c = standin_tag k iv
         then Some (take (length c - 16) c) else None),
      max_arguments = 65536\<rparr>"

subsection \<open>Concrete stores and environments\<close>

text \<open>Room codes, as stored and as typed in lower case.\<close>

definition code_A :: js_string where "code_A = js ''AAAAAA''"
definition code_B :: js_string where "code_B = js ''AAAAAB''"
definition code_a :: js_string where "code_a = js ''aaaaaa''"

definition env0 :: env where
  "env0 = \<lparr>date_now = 1000, db_now_room = 1007, db_now_participant = 1012, code_draws = (\<lambda>i. 0), token_bytes = (\<lambda>i. 0),
           room_uuid = ''r1'', participant_uuid = ''p1''\<rparr>"

definition store0 :: store where
  "store0 = \<lparr>rooms = [], room_participants = [], messages = []\<rparr>"

text \<open>The room and the store that \<open>create store0 env0 30\<close> produces.\<close>

definition room1 :: room where
  "room1 = \<lparr>r_id = ''r1'', r_code = code_A, r_duration_minutes = 30,
            r_created_at = 1007, r_expires_at = 1801000, r_status = waiting,
            r_participant_count = 1\<rparr>"

definition creator1 :: participant where
  "creator1 = \<lparr>p_id = ''p1'', p_room_id = ''r1'',
      p_session_token = ''0000000000000000000000000000000000000000000000000000000000000000'',
      p_participant_number = 1, p_created_at = 1012\<rparr>"

definition store1 :: store where
  "store1 = \<lparr>rooms = [room1], room_participants = [creator1], messages = []\<rparr>"

text \<open>Two joiners.\<close>

definition envA :: env where
  "envA = \<lparr>date_now = 2000, db_now_room = 2002, db_now_participant = 2003, code_draws = (\<lambda>i. 0), token_bytes = (\<lambda>i. 1),
           room_uuid = ''r2'', participant_uuid = ''p2''\<rparr>"

definition envB :: env where
  "envB = \<lparr>date_now = 2001, db_now_room = 2002, db_now_participant = 2004, code_draws = (\<lambda>i. 0), token_bytes = (\<lambda>i. 2),
           room_uuid = ''r3'', participant_uuid = ''p3''\<rparr>"

text \<open>A joiner whose request is checked one millisecond before the deadline of \<open>room1\<close>.\<close>

definition envL :: env where
  "envL = \<lparr>date_now = 1800999, db_now_room = 1801002, db_now_participant = 1801002,
           code_draws = (\<lambda>i. 0), token_bytes = (\<lambda>i. 1),
           room_uuid = ''r2'', participant_uuid = ''p2''\<rparr>"

definition joinerA :: participant where
  "joinerA = \<lparr>p_id = ''p2'', p_room_id = ''r1'',
      p_session_token = ''0101010101010101010101010101010101010101010101010101010101010101'',
      p_participant_number = 2, p_created_at = 2003\<rparr>"

text \<open>The store after A has joined, and one message of A in it.\<close>

definition store2 :: store where
  "store2 = \<lparr>rooms = [room1\<lparr>r_status := active, r_participant_count := 2\<rparr>],
            room_participants = [creator1, joinerA], messages = []\<rparr>"

definition message1 :: message where
  "message1 = \<lparr>m_id = ''m1'', m_room_id = ''r1'',
      m_sender_id = ''0101010101010101010101010101010101010101010101010101010101010101'',
      m_content = Some ''3q2+7w=='', m_image_url = None, m_message_type = text_message,
      m_created_at = 3000\<rparr>"

definition store3 :: store where
  "store3 = store2\<lparr>messages := [message1]\<rparr>"

text \<open>A text with a two-byte, a three-byte and a four-byte character.\<close>

definition text_mixed :: js_string where
  "text_mixed = [0x68, 0xE9, 0x20AC, 0xD83D, 0xDE00]"

section \<open>Properties of the room-operations handler\<close>

subsection \<open>Evaluation of the random values and of the examples\<close>

lemma length_generateRoomCode: "length (generateRoomCode d) = 6"
  by (simp add: generateRoomCode_def)

lemma ascii_scalar_values:
  "\<forall>u \<in> set s. unat u < 0x80 \<Longrightarrow> scalar_values s = map unat s"
  by (induction s rule: scalar_values.induct)
     (auto simp: is_high_surrogate_def is_low_surrogate_def)

lemma chars_ascii: "length chars = 32 \<and> (\<forall>u \<in> set chars. unat u < 0x80)"
  by (simp add: chars_def js_def)

lemma generateRoomCode_characters: "length (scalar_values (generateRoomCode d)) = 6"
proof -
  have "unat (d i) < 32" for i
    using unsigned_less [of "d i", where 'a = nat] by simp
  then have "chars ! unat (d i) \<in> set chars" for i
    using chars_ascii by simp
  then have "\<forall>u \<in> set (generateRoomCode d). unat u < 0x80"
    using chars_ascii by (auto simp: generateRoomCode_def)
  then show ?thesis
    by (simp add: ascii_scalar_values length_generateRoomCode)
qed

lemma generateRoomCode_zero: "generateRoomCode (\<lambda>i. 0) = code_A"
  by (simp add: generateRoomCode_def chars_def js_def code_A_def upt_conv_Cons)

lemma generateSessionToken_zero: "generateSessionToken (\<lambda>i. 0) =
  ''0000000000000000000000000000000000000000000000000000000000000000''"
  by (simp add: generateSessionToken_def hex_byte_def hex_digit_def upt_conv_Cons)

lemma generateSessionToken_one: "generateSessionToken (\<lambda>i. 1) =
  ''0101010101010101010101010101010101010101010101010101010101010101''"
  by (simp add: generateSessionToken_def hex_byte_def hex_digit_def upt_conv_Cons)

lemma generateSessionToken_two: "generateSessionToken (\<lambda>i. 2) =
  ''0202020202020202020202020202020202020202020202020202020202020202''"
  by (simp add: generateSessionToken_def hex_byte_def hex_digit_def upt_conv_Cons)

lemma toUpperCase_code_a: "ascii_toUpperCase code_a = code_A"
  by (simp add: ascii_toUpperCase_def code_a_def code_A_def js_def)

lemma toUpperCase_code_A: "ascii_toUpperCase code_A = code_A"
  by (simp add: ascii_toUpperCase_def code_A_def js_def)

lemma length_codes: "length code_a = 6" "length code_A = 6"
  by (simp_all add: code_a_def code_A_def js_def)

lemma integer_column_of_int: "integer_column (of_int n) = Some n"
  by (simp add: integer_column_def)

lemma create_store0:
  "create store0 env0 30 = (store1, (200, RoomSession room1
     ''0000000000000000000000000000000000000000000000000000000000000000'' 1))"
proof -
  have "integer_column 30 = Some 30"
    using integer_column_of_int [of 30] by simp
  moreover have "length (scalar_values code_A) = 6"
    using generateRoomCode_characters [of "\<lambda>i. 0"] by (simp add: generateRoomCode_zero)
  ultimately show ?thesis
    by (simp add: create_def store0_def env0_def insert_room_def insert_participant_def
        generateRoomCode_zero generateSessionToken_zero store1_def room1_def creator1_def Let_def)
qed

lemma joinable_A: "joinable ascii_toUpperCase store1 room1 envA code_a"
  by (simp add: joinable_def store1_def room1_def creator1_def envA_def toUpperCase_code_a
      length_codes select_room_by_code_def slot_taken_def generateSessionToken_one)

lemma joinable_B: "joinable ascii_toUpperCase store1 room1 envB code_A"
  by (simp add: joinable_def store1_def room1_def creator1_def envB_def toUpperCase_code_A
      length_codes select_room_by_code_def slot_taken_def generateSessionToken_two)

lemma store_after_join_A: "store_after_join store1 room1 envA = store2"
  by (simp add: store_after_join_def store_after_insert_def store1_def store2_def room1_def
      set_active_def join_participant_def envA_def joinerA_def generateSessionToken_one)

subsection \<open>The action \<open>create\<close>\<close>

text \<open>
  C5. For every \<open>durationMinutes\<close> outside the interval from 1 to 120, \<open>create\<close> answers with
  the status 400 and the validation message, and the store is returned as it was: no room row
  and no participant row is written.
\<close>

theorem create_invalid_duration:
  assumes "durationMinutes < 1 \<or> durationMinutes > 120"
  shows "create st e durationMinutes =
           (st, (400, Error ''Invalid duration. Must be between 1 and 120 minutes.''))"
  using assms by (auto simp add: create_def)

theorem create_invalid_duration_witness:
  "((121::rat) < 1 \<or> (121::rat) > 120) \<and>
   create store1 env0 121 =
     (store1, (400, Error ''Invalid duration. Must be between 1 and 120 minutes.''))"
  using create_invalid_duration [where durationMinutes = 121 and st = store1 and e = env0]
  by simp

text \<open>
  C6, as the claim states it, fails in two ways. \<open>expires_at\<close> is computed from
  \<^verbatim>\<open>Date.now()\<close> in the handler, \<open>created_at\<close> is the column default \<^verbatim>\<open>now()\<close> taken by the
  database at the insert: with the handler's clock at 1000 and the database's at 1007, the room
  created for 30 minutes expires at 1801000, not at 1007 + 1800000. And a duration in the
  interval need not be an integer: 1.5 passes the validation, the insert into the integer
  column fails, and the answer is 500 with no room.
\<close>

theorem create_expires_at_counterexample:
  "(\<exists>st' room tok.
     create store0 env0 30 = (st', (200, RoomSession room tok 1)) \<and>
     r_expires_at room \<noteq> r_created_at room + 30 * 60 * 1000) \<and>
   (1::rat) \<le> 3 / 2 \<and> (3 / 2 :: rat) \<le> 120 \<and>
   create store0 env0 (3 / 2) = (store0, (500, Error ''Failed to create room''))"
proof -
  have "\<lfloor>3 / 2 :: rat\<rfloor> = 1"
    by (rule floor_unique) simp_all
  then have "integer_column (3 / 2) = None"
    by (simp add: integer_column_def)
  then have "create store0 env0 (3 / 2) = (store0, (500, Error ''Failed to create room''))"
    by (simp add: create_def Let_def)
  then show ?thesis
    by (simp add: create_store0 room1_def)
qed

text \<open>
  C6, amended. For every integer \<open>durationMinutes\<close> from 1 to 120, if the generated UUIDs, room
  code and session token collide with no row of the store and no participant row names the new
  room's id, \<open>create\<close> answers 200 with a room
  whose status is \<open>waiting\<close>, whose participant count is 1, whose \<open>expires_at\<close> is the handler's
  clock reading plus \<open>durationMinutes * 60 * 1000\<close> milliseconds, and whose \<open>created_at\<close> is
  the database's clock reading at the insert of the room; the room row and the slot-1
  participant row (stamped with the database's clock reading at its own insert) are the only
  rows written.
\<close>

theorem create_valid_duration:
  assumes "durationMinutes = of_int n" and "1 \<le> n" and "n \<le> 120"
    and "room_uuid e \<notin> set (map r_id (rooms st))"
    and "generateRoomCode (code_draws e) \<notin> set (map r_code (rooms st))"
    and "participant_uuid e \<notin> set (map p_id (room_participants st))"
    and "generateSessionToken (token_bytes e) \<notin> set (map p_session_token (room_participants st))"
    and "room_uuid e \<notin> set (map p_room_id (room_participants st))"
  shows "\<exists>st' room.
           create st e durationMinutes =
             (st', (200, RoomSession room (generateSessionToken (token_bytes e)) 1)) \<and>
           r_status room = waiting \<and> r_participant_count room = 1 \<and>
           r_duration_minutes room = n \<and>
           r_expires_at room = date_now e + n * 60 * 1000 \<and>
           r_created_at room = db_now_room e \<and>
           rooms st' = rooms st @ [room] \<and>
           room_participants st' = room_participants st @
             [\<lparr>p_id = participant_uuid e, p_room_id = r_id room,
               p_session_token = generateSessionToken (token_bytes e),
               p_participant_number = 1, p_created_at = db_now_participant e\<rparr>] \<and>
           messages st' = messages st"
proof -
  have neq: "\<forall>q \<in> set (room_participants st). p_room_id q \<noteq> room_uuid e"
    using assms(8) by force
  have guard: "\<not> (durationMinutes = 0 \<or> durationMinutes < 1 \<or> durationMinutes > 120)"
    using assms(1-3) by simp
  have "of_int n * 60 * 1000 = (of_int (n * 60 * 1000) :: rat)"
    by simp
  then have fl: "\<lfloor>durationMinutes * 60 * 1000\<rfloor> = n * 60 * 1000"
    unfolding assms(1) by (simp only: floor_of_int)
  have "60000 * of_int n = (of_int (60000 * n) :: rat)"
    by simp
  then have fl': "\<lfloor>60000 * durationMinutes\<rfloor> = 60000 * n"
    unfolding assms(1) by (simp only: floor_of_int)
  have col: "integer_column durationMinutes = Some n"
    unfolding assms(1) by (rule integer_column_of_int)
  show ?thesis
    unfolding create_def
    using assms(4-7) neq guard
    by (auto simp add: fl fl' col insert_room_def insert_participant_def
        generateRoomCode_characters Let_def)
qed

theorem create_valid_duration_witness:
  "(30::rat) = of_int 30 \<and> (1::int) \<le> 30 \<and> (30::int) \<le> 120 \<and>
   room_uuid env0 \<notin> set (map r_id (rooms store0)) \<and>
   generateRoomCode (code_draws env0) \<notin> set (map r_code (rooms store0)) \<and>
   participant_uuid env0 \<notin> set (map p_id (room_participants store0)) \<and>
   generateSessionToken (token_bytes env0) \<notin> set (map p_session_token (room_participants store0)) \<and>
   room_uuid env0 \<notin> set (map p_room_id (room_participants store0)) \<and>
   (\<exists>st' room.
      create store0 env0 30 =
        (st', (200, RoomSession room (generateSessionToken (token_bytes env0)) 1)) \<and>
      r_status room = waiting \<and> r_participant_count room = 1 \<and>
      r_expires_at room = date_now env0 + 30 * 60 * 1000 \<and>
      r_created_at room = db_now_room env0)"
  using create_valid_duration [where durationMinutes = 30 and n = 30 and st = store0 and e = env0]
  by (simp add: store0_def) blast

text \<open>
  C7, as the claim states it, fails: the handler generates one code and sends one insert. In
  \<open>store1\<close> the code \<open>AAAAAA\<close> is taken; a request whose six draws give \<open>AAAAAA\<close> is answered
  with 500 \<^verbatim>\<open>Failed to create room\<close>.
\<close>

theorem create_collision_counterexample:
  "generateRoomCode (code_draws env0) \<in> set (map r_code (rooms store1)) \<and>
   create store1 env0 30 = (store1, (500, Error ''Failed to create room''))"
proof -
  have "integer_column 30 = Some 30"
    using integer_column_of_int [of 30] by simp
  then show ?thesis
    by (simp add: create_def insert_room_def store1_def env0_def room1_def generateRoomCode_zero
        Let_def)
qed

text \<open>
  C7, amended. When the generated code collides with a room of the store, \<open>create\<close> makes no
  second attempt: for every valid duration it answers 500 \<^verbatim>\<open>Failed to create room\<close>, and the
  store is returned as it was.
\<close>

theorem create_collision:
  assumes "1 \<le> durationMinutes" "durationMinutes \<le> 120"
    and "generateRoomCode (code_draws e) \<in> set (map r_code (rooms st))"
  shows "create st e durationMinutes = (st, (500, Error ''Failed to create room''))"
  using assms by (simp add: create_def insert_room_def Let_def split: option.splits)

theorem create_collision_witness:
  "(1::rat) \<le> 45 \<and> (45::rat) \<le> 120 \<and>
   generateRoomCode (code_draws envA) \<in> set (map r_code (rooms store2)) \<and>
   create store2 envA 45 = (store2, (500, Error ''Failed to create room''))"
proof -
  have c: "generateRoomCode (code_draws envA) \<in> set (map r_code (rooms store2))"
    by (simp add: envA_def store2_def room1_def generateRoomCode_zero)
  show ?thesis
    using c create_collision [where durationMinutes = 45 and st = store2 and e = envA]
    by simp
qed

subsection \<open>The action \<open>sendMessage\<close>\<close>

lemma send_message_invalid_action:
  "room_operations up st e (SendMessage roomId sessionToken content messageType imageUrl) =
     (st, (400, Error ''Invalid action''))"
  by simp

text \<open>
  C8. The handler has no branch for \<open>sendMessage\<close>, the action the client library sends: a
  request with a token bound to no room is answered with 400 \<^verbatim>\<open>Invalid action\<close>, not with
  the 403 of \<open>get\<close> and \<open>getMessages\<close>. No message is inserted (nor is one for a bound token).
\<close>

theorem send_message_garbage_token:
  "room_operations ascii_toUpperCase store2 env0
       (SendMessage ''r1'' ''garbage-token'' (Some ''3q2+7w=='') text_message None)
     = (store2, (400, Error ''Invalid action'')) \<and>
   getMessages store2 ''r1'' ''garbage-token'' = (403, Error ''Not authorized to access this room'')"
  by (simp add: getMessages_def select_participant_def store2_def creator1_def joinerA_def)

subsection \<open>The action \<open>join\<close>: statements of one request\<close>

lemma r_in_rooms: "filter (\<lambda>x. r_id x = r_id r) (rooms st) = [r] \<Longrightarrow> r \<in> set (rooms st)"
proof -
  assume a: "filter (\<lambda>x. r_id x = r_id r) (rooms st) = [r]"
  have "r \<in> set (filter (\<lambda>x. r_id x = r_id r) (rooms st))"
    by (simp add: a)
  then show ?thesis by simp
qed

lemma precheck_st: "joinable up st r e c \<Longrightarrow> join_precheck up st e c = Inr r"
  by (auto simp: joinable_def join_precheck_def)

lemma precheck_ins: "joinable up st r e c \<Longrightarrow> join_precheck up (store_after_insert st r e') e c = Inr r"
  by (auto simp: joinable_def join_precheck_def store_after_insert_def select_room_by_code_def)

lemma filter_code_map_active:
  "filter (\<lambda>x. r_code x = c) (map (\<lambda>x. if r_id x = rid then set_active x else x) xs)
     = map (\<lambda>x. if r_id x = rid then set_active x else x) (filter (\<lambda>x. r_code x = c) xs)"
  by (induction xs) (auto simp: set_active_def)

lemma select_code_fin:
  assumes "select_room_by_code st c = Row r"
  shows "select_room_by_code (store_after_join st r e') c = Row (set_active r)"
proof -
  have "filter (\<lambda>x. r_code x = c) (rooms st) = [r]"
    using assms by (auto simp: select_room_by_code_def split: list.splits)
  then show ?thesis
    by (simp add: select_room_by_code_def store_after_join_def store_after_insert_def filter_code_map_active)
qed

lemma precheck_fin: "joinable up st r e c \<Longrightarrow> join_precheck up (store_after_join st r e') e c = Inl full_at_precheck"
  by (auto simp: joinable_def join_precheck_def select_code_fin full_at_precheck_def set_active_def)

lemma insert_st: "joinable up st r e c \<Longrightarrow> insert_participant st (join_participant e r) = Some (store_after_insert st r e)"
  by (auto simp: joinable_def insert_participant_def join_participant_def store_after_insert_def slot_taken_def
      dest: r_in_rooms)

lemma insert_ins: "insert_participant (store_after_insert st r e') (join_participant e r) = None"
  by (auto simp: insert_participant_def join_participant_def store_after_insert_def)

lemma insert_fin: "insert_participant (store_after_join st r e') (join_participant e r) = None"
  by (auto simp: insert_participant_def join_participant_def store_after_insert_def store_after_join_def)

lemma update_ins: "joinable up st r e c \<Longrightarrow>
    update_room_active (store_after_insert st r e) (r_id r) = Some (set_active r, store_after_join st r e)"
  by (auto simp: joinable_def update_room_active_def store_after_insert_def store_after_join_def)

lemma step_start:
  "join_step up e c s JStart = (case join_precheck up s e c of Inl resp \<Rightarrow> (s, JDone resp) | Inr room \<Rightarrow> (s, JChecked room))"
  by (simp add: join_step_def)

lemma step_checked:
  "join_step up e c s (JChecked r) =
     (case insert_participant s (join_participant e r) of
        None \<Rightarrow> (s, JDone full_at_insert) | Some s1 \<Rightarrow> (s1, JInserted r))"
  by (simp add: join_step_def full_at_insert_def split: option.splits)

lemma step_inserted:
  "join_step up e c s (JInserted r) =
     (case update_room_active s (r_id r) of
        None \<Rightarrow> (s, JDone (500, Error ''Failed to join room''))
      | Some (u, s2) \<Rightarrow> (s2, JDone (200, RoomSession u (generateSessionToken (token_bytes e)) 2)))"
  by (simp add: join_step_def)

lemma step_inserted_ins:
  "joinable up st r e c \<Longrightarrow>
     join_step up e c (store_after_insert st r e) (JInserted r) = (store_after_join st r e, JDone (join_ok r e))"
  by (simp add: step_inserted update_ins join_ok_def)

lemma step_done: "join_step up e c s (JDone resp) = (s, JDone resp)"
  by (simp add: join_step_def)

lemma inv_step_A:
  assumes jA: "joinable up st r eA cA"
    and inv: "race_inv st r eA eB (s, pa, pb)"
  shows "race_inv st r eA eB (fst (join_step up eA cA s pa), snd (join_step up eA cA s pa), pb)"
  using inv
proof (cases rule: race_inv.cases)
  case nobody
  then show ?thesis
    by (auto simp: step_start step_checked precheck_st [OF jA] insert_st [OF jA]
        intro: race_inv.intros)
next
  case A_inserted
  then show ?thesis
    by (auto simp: step_inserted_ins [OF jA] intro: race_inv.intros)
next
  case A_joined
  then show ?thesis
    by (auto simp: step_done intro: race_inv.intros)
next
  case B_inserted
  then show ?thesis
    by (auto simp: step_start step_checked step_done precheck_ins [OF jA] insert_ins
        intro: race_inv.intros)
next
  case B_joined
  then show ?thesis
    by (auto simp: step_start step_checked step_done precheck_fin [OF jA] insert_fin
        intro: race_inv.intros)
qed

lemma inv_step_B:
  assumes jB: "joinable up st r eB cB"
    and inv: "race_inv st r eA eB (s, pa, pb)"
  shows "race_inv st r eA eB (fst (join_step up eB cB s pb), pa, snd (join_step up eB cB s pb))"
  using inv
proof (cases rule: race_inv.cases)
  case nobody
  then show ?thesis
    by (auto simp: step_start step_checked precheck_st [OF jB] insert_st [OF jB]
        intro: race_inv.intros)
next
  case B_inserted
  then show ?thesis
    by (auto simp: step_inserted_ins [OF jB] intro: race_inv.intros)
next
  case B_joined
  then show ?thesis
    by (auto simp: step_done intro: race_inv.intros)
next
  case A_inserted
  then show ?thesis
    by (auto simp: step_start step_checked step_done precheck_ins [OF jB] insert_ins
        intro: race_inv.intros)
next
  case A_joined
  then show ?thesis
    by (auto simp: step_start step_checked step_done precheck_fin [OF jB] insert_fin
        intro: race_inv.intros)
qed

lemma race_preserves_inv:
  assumes jA: "joinable up st r eA cA" and jB: "joinable up st r eB cB"
  shows "race_inv st r eA eB cfg \<Longrightarrow> race_inv st r eA eB (race up eA cA eB cB sched cfg)"
proof (induction sched arbitrary: cfg)
  case Nil
  then show ?case by simp
next
  case (Cons w ws)
  obtain s pa pb where cfg: "cfg = (s, pa, pb)" by (cases cfg) auto
  show ?case
  proof (cases w)
    case True
    have "race_inv st r eA eB (fst (join_step up eA cA s pa), snd (join_step up eA cA s pa), pb)"
      using inv_step_A [OF jA] Cons.prems cfg by simp
    then show ?thesis
      using Cons.IH True cfg by (simp add: case_prod_beta)
  next
    case False
    have "race_inv st r eA eB (fst (join_step up eB cB s pb), pa, snd (join_step up eB cB s pb))"
      using inv_step_B [OF jB] Cons.prems cfg by simp
    then show ?thesis
      using Cons.IH False cfg by (simp add: case_prod_beta)
  qed
qed

lemma remaining_step: "remaining (snd (join_step up e c s p)) \<le> remaining p - 1"
  by (cases p) (auto simp: join_step_def split: sum.splits option.splits)

lemma race_remaining:
  "remaining (fst (snd (race up eA cA eB cB sched (s, pa, pb)))) \<le> remaining pa - length (filter id sched) \<and>
   remaining (snd (snd (race up eA cA eB cB sched (s, pa, pb)))) \<le> remaining pb - length (filter Not sched)"
proof (induction sched arbitrary: s pa pb)
  case Nil
  then show ?case by simp
next
  case (Cons w ws)
  show ?case
  proof (cases w)
    case True
    have "remaining (snd (join_step up eA cA s pa)) \<le> remaining pa - 1"
      by (rule remaining_step)
    then show ?thesis
      using True Cons.IH [of "fst (join_step up eA cA s pa)" "snd (join_step up eA cA s pa)" pb]
      by (simp add: case_prod_beta) linarith
  next
    case False
    have "remaining (snd (join_step up eB cB s pb)) \<le> remaining pb - 1"
      by (rule remaining_step)
    then show ?thesis
      using False Cons.IH [of "fst (join_step up eB cB s pb)" pa "snd (join_step up eB cB s pb)"]
      by (simp add: case_prod_beta) linarith
  qed
qed

lemma remaining_zero: "remaining p = 0 \<Longrightarrow> \<exists>resp. p = JDone resp"
  by (cases p) auto

lemma race_outcome:
  assumes jA: "joinable up st r eA cA" and jB: "joinable up st r eB cB"
    and fair: "3 \<le> length (filter id sched)" "3 \<le> length (filter Not sched)"
  shows "race up eA cA eB cB sched (st, JStart, JStart) \<in>
           {(store_after_join st r eA, JDone (join_ok r eA), JDone full_at_insert),
            (store_after_join st r eA, JDone (join_ok r eA), JDone full_at_precheck),
            (store_after_join st r eB, JDone full_at_insert, JDone (join_ok r eB)),
            (store_after_join st r eB, JDone full_at_precheck, JDone (join_ok r eB))}"
proof -
  let ?cfg = "race up eA cA eB cB sched (st, JStart, JStart)"
  obtain s pa pb where cfg: "?cfg = (s, pa, pb)" by (cases ?cfg) auto
  have "race_inv st r eA eB (st, JStart, JStart)"
    by (simp add: race_inv.intros)
  then have inv: "race_inv st r eA eB (s, pa, pb)"
    using race_preserves_inv [OF jA jB, of "(st, JStart, JStart)" sched] cfg by simp
  have "remaining pa = 0" "remaining pb = 0"
    using race_remaining [of up eA cA eB cB sched st JStart JStart] fair cfg by simp_all
  then obtain ra rb where fin: "pa = JDone ra" "pb = JDone rb"
    using remaining_zero by blast
  from inv show ?thesis
    unfolding cfg fin
    by (cases rule: race_inv.cases) auto
qed

text \<open>Served without interruption, the three statements are the handler of \<open>join\<close>.\<close>

lemma join_as_steps:
  "race up e c e c [True, True, True] (st, JStart, JStart) =
     (fst (join up st e c), JDone (snd (join up st e c)), JStart)"
  by (simp add: join_def join_register_def join_step_def Let_def
      split: sum.splits option.splits prod.splits)


subsection \<open>The join race\<close>

text \<open>
  C1, as the claim states it, fails in its last part: the update of the room row is no
  compare-and-swap. Its only condition is the row's id, so it succeeds whatever the status is.
  A request checks \<open>room1\<close> one millisecond before the deadline; \<open>cleanup_expired_rooms\<close>
  then marks the room \<open>expired\<close>; the rest of the request inserts its row and sets the expired
  room to \<open>active\<close> with two participants, and the request is answered 200.
\<close>

lemma cleanup_store1:
  "cleanup_expired_rooms store1 1801001 =
     \<lparr>rooms = [room1\<lparr>r_status := expired\<rparr>], room_participants = [creator1], messages = []\<rparr>"
  by (auto simp add: cleanup_expired_rooms_def store1_def room1_def Let_def)

lemma code_A_nonempty: "code_A \<noteq> []"
  by (simp add: code_A_def js_def)

theorem join_update_unconditional_counterexample:
  "join_precheck ascii_toUpperCase store1 envL code_A = Inr room1 \<and>
   map r_status (rooms (cleanup_expired_rooms store1 1801001)) = [expired] \<and>
   (\<exists>st'. join_register (cleanup_expired_rooms store1 1801001) envL room1 =
      (st', (200, RoomSession (room1\<lparr>r_status := active, r_participant_count := 2\<rparr>)
                   (generateSessionToken (token_bytes envL)) 2)) \<and>
      map r_status (rooms st') = [active])"
  by (simp add: cleanup_store1)
     (simp add: join_precheck_def toUpperCase_code_A length_codes code_A_nonempty
      select_room_by_code_def
      store1_def room1_def
      envL_def join_register_def insert_participant_def
      join_participant_def creator1_def generateSessionToken_one update_room_active_def
      set_active_def Let_def)

text \<open>
  C1, amended. Take a room that is the only row with its id, in status \<open>waiting\<close> with
  participant count 1 and slot 2 free, and two \<open>join\<close> requests whose six-code-unit codes both
  map to the room's code under \<^verbatim>\<open>toUpperCase\<close>, whose handlers both read a clock on which
  the room's deadline has not passed, and whose generated participant ids and session tokens
  are not in the participant table. When the two requests race and each handler runs its three
  statements (read, insert, update) to its response, in every order in which the database
  receives their statements exactly one request is answered 200 with the room in
  status \<open>active\<close>, participant count 2 and a slot-2 binding, and the other is answered with one
  of the two room-full responses (400); the store ends with the room \<open>active\<close> with
  participant count 2 and with exactly one new participant row, the winner's. What
  rejects the loser is the unique index on \<open>(room_id, participant_number)\<close>, hit by its insert,
  or the optimistic check when it reads the room after the winner's update; the update of the
  room row itself is unconditional.
\<close>

theorem join_race:
  assumes "length cA = 6" and "length cB = 6"
    and "select_room_by_code st (toUpperCase cA) = Row r"
    and "select_room_by_code st (toUpperCase cB) = Row r"
    and "filter (\<lambda>x. r_id x = r_id r) (rooms st) = [r]"
    and "r_status r = waiting" and "r_participant_count r = 1"
    and "\<not> r_expires_at r < date_now eA" and "\<not> r_expires_at r < date_now eB"
    and "\<not> slot_taken st (r_id r) 2"
    and "participant_uuid eA \<notin> set (map p_id (room_participants st))"
    and "participant_uuid eB \<notin> set (map p_id (room_participants st))"
    and "generateSessionToken (token_bytes eA) \<notin> set (map p_session_token (room_participants st))"
    and "generateSessionToken (token_bytes eB) \<notin> set (map p_session_token (room_participants st))"
    and "3 \<le> length (filter id sched)" and "3 \<le> length (filter Not sched)"
  shows "\<exists>st' ra rb ew.
     race toUpperCase eA cA eB cB sched (st, JStart, JStart) = (st', JDone ra, JDone rb) \<and>
     ((ew = eA \<and> ra = (200, RoomSession (set_active r) (generateSessionToken (token_bytes eA)) 2)
               \<and> room_full rb) \<or>
      (ew = eB \<and> rb = (200, RoomSession (set_active r) (generateSessionToken (token_bytes eB)) 2)
               \<and> room_full ra)) \<and>
     r_status (set_active r) = active \<and> r_participant_count (set_active r) = 2 \<and>
     rooms st' = map (\<lambda>x. if r_id x = r_id r then set_active x else x) (rooms st) \<and>
     select_room_by_code st' (toUpperCase cA) = Row (set_active r) \<and>
     room_participants st' = room_participants st @ [join_participant ew r] \<and>
     p_room_id (join_participant ew r) = r_id r \<and>
     p_participant_number (join_participant ew r) = 2"
proof -
  have jA: "joinable toUpperCase st r eA cA" and jB: "joinable toUpperCase st r eB cB"
    using assms(1-14) by (simp_all add: joinable_def)
  have sel: "select_room_by_code st (toUpperCase cA) = Row r"
    by (rule assms(3))
  have selA: "select_room_by_code (store_after_join st r eA) (toUpperCase cA) = Row (set_active r)"
    and selB: "select_room_by_code (store_after_join st r eB) (toUpperCase cA) = Row (set_active r)"
    using sel by (simp_all add: select_code_fin)
  have facts: "r_status (set_active r) = active" "r_participant_count (set_active r) = 2"
    "p_room_id (join_participant eA r) = r_id r" "p_participant_number (join_participant eA r) = 2"
    "p_room_id (join_participant eB r) = r_id r" "p_participant_number (join_participant eB r) = 2"
    by (simp_all add: set_active_def join_participant_def)
  have rooms_after: "\<And>e. rooms (store_after_join st r e) =
      map (\<lambda>x. if r_id x = r_id r then set_active x else x) (rooms st)"
    and parts_after: "\<And>e. room_participants (store_after_join st r e) =
      room_participants st @ [join_participant e r]"
    by (simp_all add: store_after_join_def store_after_insert_def)
  from race_outcome [OF jA jB assms(15,16)]
  consider
      (A1) "race toUpperCase eA cA eB cB sched (st, JStart, JStart) =
              (store_after_join st r eA, JDone (join_ok r eA), JDone full_at_insert)"
    | (A2) "race toUpperCase eA cA eB cB sched (st, JStart, JStart) =
              (store_after_join st r eA, JDone (join_ok r eA), JDone full_at_precheck)"
    | (B1) "race toUpperCase eA cA eB cB sched (st, JStart, JStart) =
              (store_after_join st r eB, JDone full_at_insert, JDone (join_ok r eB))"
    | (B2) "race toUpperCase eA cA eB cB sched (st, JStart, JStart) =
              (store_after_join st r eB, JDone full_at_precheck, JDone (join_ok r eB))"
    by blast
  then show ?thesis
  proof cases
    case A1
    show ?thesis
      apply (rule exI [of _ "store_after_join st r eA"])
      apply (rule exI [of _ "join_ok r eA"])
      apply (rule exI [of _ "full_at_insert"])
      apply (rule exI [of _ eA])
      using A1 selA facts
      by (simp add: rooms_after parts_after join_ok_def room_full_def)
  next
    case A2
    show ?thesis
      apply (rule exI [of _ "store_after_join st r eA"])
      apply (rule exI [of _ "join_ok r eA"])
      apply (rule exI [of _ "full_at_precheck"])
      apply (rule exI [of _ eA])
      using A2 selA facts
      by (simp add: rooms_after parts_after join_ok_def room_full_def)
  next
    case B1
    show ?thesis
      apply (rule exI [of _ "store_after_join st r eB"])
      apply (rule exI [of _ "full_at_insert"])
      apply (rule exI [of _ "join_ok r eB"])
      apply (rule exI [of _ eB])
      using B1 selB facts
      by (simp add: rooms_after parts_after join_ok_def room_full_def)
  next
    case B2
    show ?thesis
      apply (rule exI [of _ "store_after_join st r eB"])
      apply (rule exI [of _ "full_at_precheck"])
      apply (rule exI [of _ "join_ok r eB"])
      apply (rule exI [of _ eB])
      using B2 selB facts
      by (simp add: rooms_after parts_after join_ok_def room_full_def)
  qed
qed

theorem join_race_witness:
  "length code_a = 6 \<and> length code_A = 6 \<and>
   select_room_by_code store1 (ascii_toUpperCase code_a) = Row room1 \<and>
   select_room_by_code store1 (ascii_toUpperCase code_A) = Row room1 \<and>
   filter (\<lambda>x. r_id x = r_id room1) (rooms store1) = [room1] \<and>
   r_status room1 = waiting \<and> r_participant_count room1 = 1 \<and>
   \<not> r_expires_at room1 < date_now envA \<and> \<not> r_expires_at room1 < date_now envB \<and>
   \<not> slot_taken store1 (r_id room1) 2 \<and>
   participant_uuid envA \<notin> set (map p_id (room_participants store1)) \<and>
   participant_uuid envB \<notin> set (map p_id (room_participants store1)) \<and>
   generateSessionToken (token_bytes envA) \<notin> set (map p_session_token (room_participants store1)) \<and>
   generateSessionToken (token_bytes envB) \<notin> set (map p_session_token (room_participants store1)) \<and>
   3 \<le> length (filter id [True, False, False, True, True, False]) \<and>
   3 \<le> length (filter Not [True, False, False, True, True, False]) \<and>
   (\<exists>st' ra rb ew.
     race ascii_toUpperCase envA code_a envB code_A [True, False, False, True, True, False]
       (store1, JStart, JStart) = (st', JDone ra, JDone rb) \<and>
     ((ew = envA \<and> ra = (200, RoomSession (set_active room1)
                                (generateSessionToken (token_bytes envA)) 2) \<and> room_full rb) \<or>
      (ew = envB \<and> rb = (200, RoomSession (set_active room1)
                                (generateSessionToken (token_bytes envB)) 2) \<and> room_full ra)) \<and>
     r_status (set_active room1) = active \<and> r_participant_count (set_active room1) = 2 \<and>
     room_participants st' = room_participants store1 @ [join_participant ew room1])"
proof -
  have s: "3 \<le> length (filter id [True, False, False, True, True, False])"
    "3 \<le> length (filter Not [True, False, False, True, True, False])"
    by simp_all
  have h: "length code_a = 6" "length code_A = 6"
    "select_room_by_code store1 (ascii_toUpperCase code_a) = Row room1"
    "select_room_by_code store1 (ascii_toUpperCase code_A) = Row room1"
    "filter (\<lambda>x. r_id x = r_id room1) (rooms store1) = [room1]"
    "r_status room1 = waiting" "r_participant_count room1 = 1"
    "\<not> r_expires_at room1 < date_now envA" "\<not> r_expires_at room1 < date_now envB"
    "\<not> slot_taken store1 (r_id room1) 2"
    "participant_uuid envA \<notin> set (map p_id (room_participants store1))"
    "participant_uuid envB \<notin> set (map p_id (room_participants store1))"
    "generateSessionToken (token_bytes envA) \<notin> set (map p_session_token (room_participants store1))"
    "generateSessionToken (token_bytes envB) \<notin> set (map p_session_token (room_participants store1))"
    using joinable_A joinable_B by (simp_all add: joinable_def)
  from join_race [OF h s]
  have "\<exists>st' ra rb ew.
     race ascii_toUpperCase envA code_a envB code_A [True, False, False, True, True, False]
       (store1, JStart, JStart) = (st', JDone ra, JDone rb) \<and>
     ((ew = envA \<and> ra = (200, RoomSession (set_active room1)
                                (generateSessionToken (token_bytes envA)) 2) \<and> room_full rb) \<or>
      (ew = envB \<and> rb = (200, RoomSession (set_active room1)
                                (generateSessionToken (token_bytes envB)) 2) \<and> room_full ra)) \<and>
     r_status (set_active room1) = active \<and> r_participant_count (set_active room1) = 2 \<and>
     room_participants st' = room_participants store1 @ [join_participant ew room1]"
    by blast
  then show ?thesis
    using h s by blast
qed

text \<open>
  C2. A \<open>join\<close> request that has passed its optimistic checks and then finds slot 2 of the
  room bound (the room became full in between) is answered with the 400 response
  \<^verbatim>\<open>Failed to join room. It may be full.\<close>, and the store is returned as it was: the failed
  insert leaves no participant row. (The update of the room row has no condition on the
  room's state, so it cannot lose this race.)
\<close>

theorem join_register_room_full:
  assumes "slot_taken st (r_id room) 2"
  shows "join_register st e room = (st, (400, Error ''Failed to join room. It may be full.''))"
  using assms
  by (simp add: join_register_def insert_participant_def join_participant_def slot_taken_def
      Let_def)

theorem join_register_room_full_witness:
  "join_precheck ascii_toUpperCase store1 envB code_A = Inr room1 \<and>
   slot_taken store2 (r_id room1) 2 \<and>
   join_register store2 envB room1 = (store2, (400, Error ''Failed to join room. It may be full.''))"
proof -
  have t: "slot_taken store2 (r_id room1) 2"
    by (simp add: slot_taken_def store2_def room1_def creator1_def joinerA_def)
  show ?thesis
    using t join_register_room_full [where st = store2 and room = room1 and e = envB]
      precheck_st [OF joinable_B]
    by simp
qed

subsection \<open>Reading messages\<close>

lemma messages_select_policies_final:
  "messages_select_policies = [(''Messages are readable'', messages_are_readable)]"
  by (simp add: messages_select_policies_def select_policy_migrations_def)

lemma select_allowed_always: "select_allowed st hdr m"
  by (simp add: select_allowed_def messages_select_policies_final messages_are_readable_def)

text \<open>
  C9, as the claim states it, fails: the policy in force on \<open>messages\<close> is
  \<^verbatim>\<open>USING (true)\<close>. In \<open>store3\<close> the token \<open>garbage-token\<close> is bound to no room, and a
  subscriber to room \<open>r1\<close> presenting it, or presenting no token at all, is handed the
  inserted row \<open>message1\<close>.
\<close>

theorem subscription_unbound_counterexample:
  "\<not> bound_token store3 ''r1'' ''garbage-token'' \<and>
   subscription_delivers store3 (Some ''garbage-token'') ''r1'' message1 \<and>
   subscription_delivers store3 None ''r1'' message1"
  by (simp add: bound_token_def store3_def store2_def creator1_def joinerA_def
      subscription_delivers_def select_allowed_always message1_def)

text \<open>
  C9, amended. A newly inserted message row is delivered over the subscription channel of a
  room to every subscriber that names the room's id, whatever token it presents or none; a
  session token bound to the room is required only by the \<open>getMessages\<close> action, which answers
  a token without a binding with 403 (400 when the room id or the token is empty) and no rows.
\<close>

theorem subscription_delivers_to_all:
  "(subscription_delivers st hdr roomId m \<longleftrightarrow> m_room_id m = roomId) \<and>
   (\<not> bound_token st roomId t \<longrightarrow>
      getMessages st roomId t =
        (if roomId = [] \<or> t = [] then (400, Error ''Missing roomId or session token'')
         else (403, Error ''Not authorized to access this room'')))"
proof -
  have "\<not> bound_token st roomId t \<Longrightarrow>
        filter (\<lambda>p. p_room_id p = roomId \<and> p_session_token p = t) (room_participants st) = []"
    by (auto simp: bound_token_def list_ex_iff filter_empty_conv)
  then show ?thesis
    by (simp add: subscription_delivers_def select_allowed_always getMessages_def
        select_participant_def)
qed

theorem subscription_delivers_to_all_witness:
  "\<not> bound_token store3 ''r1'' ''garbage-token'' \<and>
   (subscription_delivers store3 None ''r1'' message1 \<longleftrightarrow> m_room_id message1 = ''r1'') \<and>
   getMessages store3 ''r1'' ''garbage-token'' = (403, Error ''Not authorized to access this room'')"
proof -
  have u: "\<not> bound_token store3 ''r1'' ''garbage-token''"
    by (simp add: bound_token_def store3_def store2_def creator1_def joinerA_def)
  show ?thesis
    using u subscription_delivers_to_all [where st = store3 and hdr = None and roomId = "''r1''"
        and m = message1 and t = "''garbage-token''"]
    by simp
qed

section \<open>Properties of the encryption module\<close>

subsection \<open>\<^verbatim>\<open>atob\<close> inverts \<^verbatim>\<open>btoa\<close> on byte strings\<close>

lemma ucast_byte_roundtrip: "(ucast (ucast (b :: 8 word) :: 16 word) :: 8 word) = b"
  by (rule ucast_up_ucast_id) (simp add: is_up)

lemma unat_ucast_byte: "unat (ucast (b :: 8 word) :: 16 word) = unat b"
  using unsigned_less [of b, where 'a = nat]
  by (simp add: unsigned_ucast_eq take_bit_eq_mod)

lemma unat_byte_lt: "unat (b :: 8 word) < 256"
  using unsigned_less [of b, where 'a = nat] by simp

lemma btoa_bytes: "btoa (map ucast bs) = Inr (base64_encode bs)"
proof -
  have "\<not> 0xFF < unat (ucast b :: 16 word)" for b :: "8 word"
    using unat_byte_lt [of b] by (simp add: unat_ucast_byte)
  then have "\<not> list_ex (\<lambda>u. 0xFF < unat u) (map ucast bs :: 16 word list)"
    by (simp add: list_ex_iff)
  moreover have "map ucast (map ucast bs :: 16 word list) = bs"
    by (simp add: ucast_byte_roundtrip comp_def)
  ultimately show ?thesis
    by (simp add: btoa_def)
qed

lemma sextets_lt: "i \<in> set (sextets bs) \<Longrightarrow> i < 64"
proof (induction bs arbitrary: i rule: sextets.induct)
  case (1 a b c bs)
  have "unat a < 256" "unat b < 256" "unat c < 256" by (rule unat_byte_lt)+
  with 1 show ?case by auto
next
  case (2 a b)
  have "unat a < 256" "unat b < 256" by (rule unat_byte_lt)+
  with 2 show ?case by auto
next
  case (3 a)
  have "unat a < 256" by (rule unat_byte_lt)
  with 3 show ?case by auto
next
  case 4
  then show ?case by simp
qed

lemma div_mod_digit:
  fixes x y k :: nat
  shows "x < k \<Longrightarrow> (y * k + x) div k = y \<and> (y * k + x) mod k = x"
  by simp

lemma sextet_arith:
  fixes a b c :: nat
  assumes "b < 256" "c < 256"
  shows "(a mod 4 * 16 + b div 16) div 16 = a mod 4"
    and "(a mod 4 * 16 + b div 16) mod 16 = b div 16"
    and "(b mod 16 * 4 + c div 64) div 4 = b mod 16"
    and "(b mod 16 * 4 + c div 64) mod 4 = c div 64"
    and "a div 4 * 4 + a mod 4 = a"
    and "b div 16 * 16 + b mod 16 = b"
    and "c div 64 * 64 + c mod 64 = c"
    and "b mod 16 * 4 div 4 = b mod 16"
    and "a mod 4 * 16 div 16 = a mod 4"
proof -
  have b16: "b div 16 < 16" and c64: "c div 64 < 4"
    using assms by (simp_all add: less_mult_imp_div_less)
  show "(a mod 4 * 16 + b div 16) div 16 = a mod 4"
    and "(a mod 4 * 16 + b div 16) mod 16 = b div 16"
    and "(b mod 16 * 4 + c div 64) div 4 = b mod 16"
    and "(b mod 16 * 4 + c div 64) mod 4 = c div 64"
    and "a div 4 * 4 + a mod 4 = a"
    and "b div 16 * 16 + b mod 16 = b"
    and "c div 64 * 64 + c mod 64 = c"
    and "b mod 16 * 4 div 4 = b mod 16"
    and "a mod 4 * 16 div 16 = a mod 4"
    using div_mod_digit [OF b16, of "a mod 4"] div_mod_digit [OF c64, of "b mod 16"]
    by simp_all
qed

lemma unsextets_sextets: "unsextets (sextets bs) = bs"
proof (induction bs rule: sextets.induct)
  case (1 a b c bs)
  have "unat a < 256" "unat b < 256" "unat c < 256" by (rule unat_byte_lt)+
  then show ?case using 1 by (simp add: sextet_arith)
next
  case (2 a b)
  have "unat a < 256" "unat b < 256" by (rule unat_byte_lt)+
  then show ?case by (simp add: sextet_arith)
next
  case (3 a)
  have "unat a < 256" by (rule unat_byte_lt)
  then show ?case by (simp add: sextet_arith)
next
  case 4
  then show ?case by simp
qed

lemma length_sextets:
  "(length (sextets bs) + (3 - length bs mod 3) mod 3) mod 4 = 0"
  by (induction bs rule: sextets.induct) simp_all

lemma length_sextets_mod: "length (sextets bs) mod 4 \<noteq> 1"
  by (induction bs rule: sextets.induct) simp_all

lemma alphabet_distinct: "distinct base64_alphabet"
  by (simp add: base64_alphabet_def js_def)

lemma length_alphabet: "length base64_alphabet = 64"
  by (simp add: base64_alphabet_def js_def)

lemma alphabet_members:
  "\<forall>u \<in> set base64_alphabet. \<not> ascii_whitespace u \<and> u \<noteq> 0x3D"
  by (simp add: base64_alphabet_def js_def ascii_whitespace_def)

lemma index_of_nth:
  "distinct xs \<Longrightarrow> i < length xs \<Longrightarrow> map_of (zip xs [0..<length xs]) (xs ! i) = Some i"
  by (metis (no_types) distinct_conv_nth length_upt map_of_zip_nth minus_nat.diff_0 nth_upt
      plus_nat.add_0)

lemma alphabet_facts:
  assumes "i < 64"
  shows "base64_index (base64_alphabet ! i) = Some i"
    and "\<not> ascii_whitespace (base64_alphabet ! i)"
    and "base64_alphabet ! i \<noteq> 0x3D"
proof -
  show "base64_index (base64_alphabet ! i) = Some i"
    using index_of_nth [OF alphabet_distinct, of i] assms
    by (simp add: base64_index_def length_alphabet)
  have "base64_alphabet ! i \<in> set base64_alphabet"
    using assms by (simp add: length_alphabet)
  then show "\<not> ascii_whitespace (base64_alphabet ! i)" and "base64_alphabet ! i \<noteq> 0x3D"
    using alphabet_members by blast+
qed

lemma strip_padding_encoded:
  assumes "\<forall>u \<in> set cs. u \<noteq> 0x3D" and "p \<le> 2" and "(length cs + p) mod 4 = 0" and "p \<noteq> 0 \<longrightarrow> cs \<noteq> []"
  shows "strip_padding (cs @ replicate p 0x3D) = cs"
proof -
  consider "p = 0" | "p = 1" | "p = 2" using assms(2) by linarith
  then show ?thesis
  proof cases
    case 1
    then show ?thesis using assms by (cases "cs = []") (auto simp: strip_padding_def)
  next
    case 2
    then show ?thesis using assms by (auto simp: strip_padding_def)
  next
    case 3
    then have "replicate p (0x3D :: 16 word) = [0x3D, 0x3D]" by (simp add: numeral_2_eq_2)
    then show ?thesis using assms 3 by (auto simp: strip_padding_def butlast_append)
  qed
qed

lemma sextets_nonempty: "bs \<noteq> [] \<Longrightarrow> sextets bs \<noteq> []"
  by (induction bs rule: sextets.induct) simp_all

lemma atob_base64_encode: "atob (base64_encode bs) = Inr (map ucast bs)"
proof -
  let ?cs = "map (\<lambda>i. base64_alphabet ! i) (sextets bs)"
  let ?p = "(3 - length bs mod 3) mod 3"
  have lt: "\<forall>i \<in> set (sextets bs). i < 64" using sextets_lt by blast
  have nows: "filter (\<lambda>u. \<not> ascii_whitespace u) (base64_encode bs) = base64_encode bs"
  proof -
    have "\<not> ascii_whitespace 0x3D" by (simp add: ascii_whitespace_def)
    then show ?thesis
      using lt by (auto simp: base64_encode_def alphabet_facts filter_id_conv)
  qed
  have noeq: "\<forall>u \<in> set ?cs. u \<noteq> 0x3D"
    using lt by (auto simp: alphabet_facts)
  have len: "(length ?cs + ?p) mod 4 = 0"
    using length_sextets [of bs] by simp
  have ne: "?p \<noteq> 0 \<longrightarrow> ?cs \<noteq> []"
    using sextets_nonempty [of bs] by (cases bs) auto
  have strip: "strip_padding (base64_encode bs) = ?cs"
    unfolding base64_encode_def
    by (rule strip_padding_encoded [OF noeq _ len ne]) simp
  have mod1: "length ?cs mod 4 \<noteq> 1"
    using length_sextets_mod [of bs] by simp
  have idx: "map (\<lambda>u. the (base64_index u)) ?cs = sextets bs"
    using lt by (simp add: map_idI alphabet_facts comp_def)
  have valid: "\<not> list_ex (\<lambda>u. base64_index u = None) ?cs"
    using lt by (auto simp: list_ex_iff alphabet_facts)
  show ?thesis
    unfolding atob_def nows strip Let_def
    using mod1 valid idx by (simp add: unsextets_sextets)
qed

subsection \<open>The module in terms of its parts\<close>

lemma length_random_iv: "length (random_iv rnd) = 12"
  by (simp add: random_iv_def)

lemma encryptMessage_blob:
  assumes "length (random_iv rnd @
             aes_gcm_encrypt pf (getKey pf C) (random_iv rnd) (TextEncoder_encode P))
           \<le> max_arguments pf"
  shows "encryptMessage pf rnd P C =
     Inr (base64_encode (random_iv rnd @
            aes_gcm_encrypt pf (getKey pf C) (random_iv rnd) (TextEncoder_encode P)))"
  using assms
  by (simp add: encryptMessage_def Let_def String_fromCharCode_def btoa_bytes
      del: map_append)

lemma encryptMessage_returns:
  assumes "encryptMessage pf rnd P C = Inr blob"
  shows "blob = base64_encode (random_iv rnd @
            aes_gcm_encrypt pf (getKey pf C) (random_iv rnd) (TextEncoder_encode P))"
  using assms
  by (simp add: encryptMessage_def Let_def String_fromCharCode_def btoa_bytes
      del: map_append split: if_splits)

lemma encryptMessage_throws:
  assumes "max_arguments pf < length (random_iv rnd @
             aes_gcm_encrypt pf (getKey pf C) (random_iv rnd) (TextEncoder_encode P))"
  shows "encryptMessage pf rnd P C = Inl RangeError"
  using assms by (simp add: encryptMessage_def Let_def String_fromCharCode_def)

lemma decryptMessage_try_base64:
  "decryptMessage_try pf (base64_encode bs) C =
     (case aes_gcm_decrypt pf (getKey pf C) (take 12 bs) (drop 12 bs) of
        None \<Rightarrow> Inl OperationError
      | Some decrypted \<Rightarrow> Inr (TextDecoder_decode decrypted))"
  by (simp add: decryptMessage_try_def Let_def atob_base64_encode
      ucast_byte_roundtrip comp_def)

lemma decryptMessage_try_encrypted:
  "decryptMessage_try pf
       (base64_encode (random_iv rnd @ aes_gcm_encrypt pf k (random_iv rnd) m)) C =
     (case aes_gcm_decrypt pf (getKey pf C) (random_iv rnd) (aes_gcm_encrypt pf k (random_iv rnd) m) of
        None \<Rightarrow> Inl OperationError
      | Some decrypted \<Rightarrow> Inr (TextDecoder_decode decrypted))"
  by (simp add: decryptMessage_try_base64 length_random_iv)

lemma standin_fits:
  assumes "length m \<le> 65508"
  shows "length (random_iv rnd @ aes_gcm_encrypt standin_platform k (random_iv rnd) m)
         \<le> max_arguments standin_platform"
  using assms by (simp add: standin_platform_def standin_tag_def length_random_iv)

lemma standin_inverts:
  "aes_gcm_decrypt standin_platform k iv (aes_gcm_encrypt standin_platform k iv m) = Some m"
  by (simp add: standin_platform_def standin_tag_def)

lemma js_sentinel: "decrypt_failed =
  [91, 77, 101, 115, 115, 97, 103, 101, 32, 99, 111, 117, 108, 100, 32, 110,
  111, 116, 32, 98, 101, 32, 100, 101, 99, 114, 121, 112, 116, 101, 100, 93]"
  by (simp add: decrypt_failed_def js_def)

lemma ascii_utf8_decode:
  "\<forall>c \<in> set cps. c < 0x80 \<Longrightarrow>
     utf8_decode 0 0 0x80 0xBF (concat (map utf8_bytes cps)) = cps"
proof (induction cps)
  case Nil
  then show ?case by simp
next
  case (Cons c cps)
  then have c: "c < 0x80" by simp
  then have "unat (of_nat c :: 8 word) = c"
    by (simp add: unat_of_nat)
  with Cons c show ?case
    by (simp add: utf8_bytes_def)
qed

lemma ascii_utf16: "\<forall>u \<in> set s. unat u < 0x80 \<Longrightarrow> concat (map utf16_units (map unat s)) = s"
  by (induction s) (auto simp: utf16_units_def)

lemma ascii_roundtrip:
  assumes "\<forall>u \<in> set s. unat u < 0x80"
  shows "TextDecoder_decode (TextEncoder_encode s) = s"
proof -
  have "\<forall>c \<in> set (map unat s). c < 0x80" using assms by simp
  then have d: "utf8_decode 0 0 0x80 0xBF (TextEncoder_encode s) = map unat s"
    using ascii_utf8_decode [of "map unat s"] assms
    by (simp add: TextEncoder_encode_def ascii_scalar_values)
  have "strip_bom (map unat s) = map unat s"
    using assms by (cases s) (auto simp: strip_bom_def)
  then show ?thesis
    using ascii_utf16 [OF assms] by (simp add: TextDecoder_decode_def d)
qed

lemma sentinel_roundtrip: "TextDecoder_decode (TextEncoder_encode decrypt_failed) = decrypt_failed"
  by (rule ascii_roundtrip) (simp add: js_sentinel)

lemma lone_surrogate: "TextDecoder_decode (TextEncoder_encode [0xD800]) = [0xFFFD]"
  by (simp add: TextDecoder_decode_def TextEncoder_encode_def is_high_surrogate_def
      is_low_surrogate_def utf8_bytes_def strip_bom_def utf16_units_def)

lemma leading_bom: "TextDecoder_decode (TextEncoder_encode [0xFEFF, 0x68, 0x69]) = [0x68, 0x69]"
  by (simp add: TextDecoder_decode_def TextEncoder_encode_def is_high_surrogate_def
      is_low_surrogate_def utf8_bytes_def strip_bom_def utf16_units_def)

subsection \<open>The decoder inverts the encoder on scalar values\<close>

lemma unat_unit_lt: "unat (u :: 16 word) < 65536"
  using unsigned_less [of u, where 'a = nat] by simp

lemma unat_of_nat_byte: "n < 256 \<Longrightarrow> unat (of_nat n :: 8 word) = n"
  by (simp add: unat_of_nat)

lemma pair_scalar:
  assumes "is_high_surrogate u" "is_low_surrogate v"
  shows "is_scalar (0x10000 + (unat u - 0xD800) * 0x400 + (unat v - 0xDC00))"
proof -
  have "unat u - 0xD800 \<le> 0x3FF" "unat v - 0xDC00 \<le> 0x3FF"
    using assms unfolding is_high_surrogate_def is_low_surrogate_def by linarith+
  then have "(unat u - 0xD800) * 0x400 + (unat v - 0xDC00) \<le> 0x3FF * 0x400 + 0x3FF"
    by (intro add_mono mult_le_mono1)
  then show ?thesis
    by (simp add: is_scalar_def)
qed

lemma unit_scalar:
  assumes "\<not> is_high_surrogate u" "\<not> is_low_surrogate u"
  shows "is_scalar (unat u)"
  using assms unat_unit_lt [of u]
  by (simp add: is_scalar_def is_high_surrogate_def is_low_surrogate_def) linarith

lemma replacement_scalar: "is_scalar 0xFFFD"
  by (simp add: is_scalar_def)

lemma scalar_values_scalar: "c \<in> set (scalar_values s) \<Longrightarrow> is_scalar c"
proof (induction s arbitrary: c rule: scalar_values.induct)
  case 1
  then show ?case by simp
next
  case (2 u)
  then show ?case
    using unit_scalar [of u] replacement_scalar by (simp split: if_splits)
next
  case (3 u v us)
  show ?case
  proof (cases "is_high_surrogate u \<and> is_low_surrogate v")
    case True
    then show ?thesis
      using 3 pair_scalar [of u v] by auto
  next
    case False
    show ?thesis
    proof (cases "is_high_surrogate u \<or> is_low_surrogate u")
      case True
      then show ?thesis
        using 3 False replacement_scalar by auto
    next
      case nonsur: False
      then show ?thesis
        using 3 False unit_scalar [of u] by auto
    qed
  qed
qed

lemma decode_ascii_byte:
  "unat b \<le> 0x7F \<Longrightarrow> utf8_decode cp 0 lo hi (b # bs) = unat b # utf8_decode 0 0 0x80 0xBF bs"
  by (simp add: Let_def)

lemma decode_lead2:
  "0xC2 \<le> unat b \<Longrightarrow> unat b \<le> 0xDF \<Longrightarrow>
     utf8_decode cp 0 lo hi (b # bs) = utf8_decode (unat b - 0xC0) 1 0x80 0xBF bs"
  by (simp add: Let_def)

lemma decode_lead3:
  "0xE0 \<le> unat b \<Longrightarrow> unat b \<le> 0xEF \<Longrightarrow>
     utf8_decode cp 0 lo hi (b # bs) =
       utf8_decode (unat b - 0xE0) 2 (if unat b = 0xE0 then 0xA0 else 0x80)
         (if unat b = 0xED then 0x9F else 0xBF) bs"
  by (simp add: Let_def)

lemma decode_lead4:
  "0xF0 \<le> unat b \<Longrightarrow> unat b \<le> 0xF4 \<Longrightarrow>
     utf8_decode cp 0 lo hi (b # bs) =
       utf8_decode (unat b - 0xF0) 3 (if unat b = 0xF0 then 0x90 else 0x80)
         (if unat b = 0xF4 then 0x8F else 0xBF) bs"
  by (simp add: Let_def)

lemma decode_last:
  "lo \<le> unat b \<Longrightarrow> unat b \<le> hi \<Longrightarrow>
     utf8_decode cp (Suc 0) lo hi (b # bs) =
       (cp * 64 + (unat b - 0x80)) # utf8_decode 0 0 0x80 0xBF bs"
  by (simp add: Let_def)

lemma decode_cont:
  "lo \<le> unat b \<Longrightarrow> unat b \<le> hi \<Longrightarrow>
     utf8_decode cp (Suc (Suc n)) lo hi (b # bs) =
       utf8_decode (cp * 64 + (unat b - 0x80)) (Suc n) 0x80 0xBF bs"
  by (simp add: Let_def)

declare utf8_decode.simps [simp del]

lemma byte_of: "n < 256 \<Longrightarrow> \<exists>b :: 8 word. of_nat n = b \<and> unat b = n"
  by (simp add: unat_of_nat_byte)

lemma decode_one:
  assumes "cp < 0x80"
  shows "utf8_decode 0 0 0x80 0xBF (utf8_bytes cp @ rest) = cp # utf8_decode 0 0 0x80 0xBF rest"
proof -
  obtain b :: "8 word" where b: "of_nat cp = b" "unat b = cp"
    using byte_of [of cp] assms by auto
  have "utf8_bytes cp = [b]" using assms b by (simp add: utf8_bytes_def)
  then show ?thesis using decode_ascii_byte [of b 0 "0x80" "0xBF" rest] assms b by simp
qed

lemma digits64:
  fixes cp :: nat
  shows "cp div 64 * 64 + cp mod 64 = cp"
    and "cp div 4096 * 64 + cp div 64 mod 64 = cp div 64"
    and "cp div 262144 * 64 + cp div 4096 mod 64 = cp div 4096"
proof -
  show "cp div 64 * 64 + cp mod 64 = cp" by simp
  have "cp div 64 div 64 * 64 + cp div 64 mod 64 = cp div 64" by simp
  then show "cp div 4096 * 64 + cp div 64 mod 64 = cp div 64"
    by (simp add: div_mult2_eq [symmetric])
  have "cp div 4096 div 64 * 64 + cp div 4096 mod 64 = cp div 4096" by simp
  then show "cp div 262144 * 64 + cp div 4096 mod 64 = cp div 4096"
    by (simp add: div_mult2_eq [symmetric])
qed

lemma decode_two:
  assumes "0x80 \<le> cp" "cp < 0x800"
  shows "utf8_decode 0 0 0x80 0xBF (utf8_bytes cp @ rest) = cp # utf8_decode 0 0 0x80 0xBF rest"
proof -
  define q r where "q = cp div 64" and "r = cp mod 64"
  have cp: "q * 64 + r = cp" and r: "r < 64" by (simp_all add: q_def r_def)
  have q: "2 \<le> q" "q \<le> 31" using assms cp r by linarith+
  obtain b1 :: "8 word" where b1: "of_nat (0xC0 + q) = b1" "unat b1 = 0xC0 + q"
    using byte_of [of "0xC0 + q"] q by auto
  obtain b2 :: "8 word" where b2: "of_nat (0x80 + r) = b2" "unat b2 = 0x80 + r"
    using byte_of [of "0x80 + r"] r by auto
  have b: "utf8_bytes cp @ rest = b1 # b2 # rest"
    using assms b1 b2 unfolding utf8_bytes_def q_def r_def by simp
  have "utf8_decode 0 0 0x80 0xBF (b1 # b2 # rest) = utf8_decode q 1 0x80 0xBF (b2 # rest)"
    using decode_lead2 [of b1 0 "0x80" "0xBF" "b2 # rest"] b1 q by simp
  also have "\<dots> = (q * 64 + r) # utf8_decode 0 0 0x80 0xBF rest"
    using decode_last [of "0x80" b2 "0xBF" q rest] b2 r by simp
  finally show ?thesis unfolding b cp .
qed

lemma decode_three:
  assumes "0x800 \<le> cp" "cp < 0x10000" "\<not> (0xD800 \<le> cp \<and> cp \<le> 0xDFFF)"
  shows "utf8_decode 0 0 0x80 0xBF (utf8_bytes cp @ rest) = cp # utf8_decode 0 0 0x80 0xBF rest"
proof -
  define p q r where "p = cp div 4096" and "q = cp div 64 mod 64" and "r = cp mod 64"
  have pq: "p * 64 + q = cp div 64" and cp: "cp div 64 * 64 + r = cp"
    and r: "r < 64" and q: "q < 64"
    by (simp_all add: p_def q_def r_def digits64)
  have cp': "(p * 64 + q) * 64 + r = cp" using pq cp by simp
  then have cpl: "p * 4096 + q * 64 + r = cp" by simp
  have p: "p \<le> 15" using assms cpl q r by linarith
  have lo: "p = 0 \<longrightarrow> 32 \<le> q" using assms cpl q r by linarith
  have hi: "p = 13 \<longrightarrow> q < 32" using assms cpl q r by linarith
  obtain b1 :: "8 word" where b1: "of_nat (0xE0 + p) = b1" "unat b1 = 0xE0 + p"
    using byte_of [of "0xE0 + p"] p by auto
  obtain b2 :: "8 word" where b2: "of_nat (0x80 + q) = b2" "unat b2 = 0x80 + q"
    using byte_of [of "0x80 + q"] q by auto
  obtain b3 :: "8 word" where b3: "of_nat (0x80 + r) = b3" "unat b3 = 0x80 + r"
    using byte_of [of "0x80 + r"] r by auto
  have b: "utf8_bytes cp @ rest = b1 # b2 # b3 # rest"
    using assms b1 b2 b3 unfolding utf8_bytes_def p_def q_def r_def by simp
  define L U :: nat where "L = (if p = 0 then 0xA0 else 0x80)"
    and "U = (if p = 13 then 0x9F else 0xBF)"
  have L: "L \<le> unat b2" and U: "unat b2 \<le> U"
    using lo hi q by (auto simp: L_def U_def b2)
  have d2: "unat b2 - 0x80 = q" and d3: "unat b3 - 0x80 = r"
    by (simp_all add: b2 b3)
  have "utf8_decode 0 0 0x80 0xBF (b1 # b2 # b3 # rest) =
          utf8_decode p (Suc (Suc 0)) L U (b2 # b3 # rest)"
    using decode_lead3 [of b1 0 "0x80" "0xBF" "b2 # b3 # rest"] b1 p
    by (simp add: L_def U_def numeral_2_eq_2)
  also have "\<dots> = utf8_decode (p * 64 + (unat b2 - 0x80)) (Suc 0) 0x80 0xBF (b3 # rest)"
    by (rule decode_cont [OF L U])
  also have "\<dots> = ((p * 64 + q) * 64 + (unat b3 - 0x80)) # utf8_decode 0 0 0x80 0xBF rest"
    unfolding d2 by (rule decode_last) (use r in \<open>simp_all add: b3\<close>)
  finally show ?thesis unfolding b cp' d3 .
qed

lemma decode_four:
  assumes "0x10000 \<le> cp" "cp < 0x110000"
  shows "utf8_decode 0 0 0x80 0xBF (utf8_bytes cp @ rest) = cp # utf8_decode 0 0 0x80 0xBF rest"
proof -
  define h p q r where "h = cp div 262144" and "p = cp div 4096 mod 64"
    and "q = cp div 64 mod 64" and "r = cp mod 64"
  have hp: "h * 64 + p = cp div 4096" and pq: "cp div 4096 * 64 + q = cp div 64"
    and cp: "cp div 64 * 64 + r = cp" and r: "r < 64" and q: "q < 64" and p: "p < 64"
    by (simp_all add: h_def p_def q_def r_def digits64)
  have cp': "((h * 64 + p) * 64 + q) * 64 + r = cp" using hp pq cp by simp
  then have cpl: "h * 262144 + p * 4096 + q * 64 + r = cp" by simp
  have ob: "h \<le> 4" using assms cpl p q r by linarith
  have lo: "h = 0 \<longrightarrow> 16 \<le> p" using assms cpl p q r by linarith
  have hi: "h = 4 \<longrightarrow> p < 16" using assms cpl p q r by linarith
  obtain b1 :: "8 word" where b1: "of_nat (0xF0 + h) = b1" "unat b1 = 0xF0 + h"
    using byte_of [of "0xF0 + h"] ob by auto
  obtain b2 :: "8 word" where b2: "of_nat (0x80 + p) = b2" "unat b2 = 0x80 + p"
    using byte_of [of "0x80 + p"] p by auto
  obtain b3 :: "8 word" where b3: "of_nat (0x80 + q) = b3" "unat b3 = 0x80 + q"
    using byte_of [of "0x80 + q"] q by auto
  obtain b4 :: "8 word" where b4: "of_nat (0x80 + r) = b4" "unat b4 = 0x80 + r"
    using byte_of [of "0x80 + r"] r by auto
  have b: "utf8_bytes cp @ rest = b1 # b2 # b3 # b4 # rest"
    using assms b1 b2 b3 b4 unfolding utf8_bytes_def h_def p_def q_def r_def by simp
  define L U :: nat where "L = (if h = 0 then 0x90 else 0x80)"
    and "U = (if h = 4 then 0x8F else 0xBF)"
  have L: "L \<le> unat b2" and U: "unat b2 \<le> U"
    using lo hi p by (auto simp: L_def U_def b2)
  have d2: "unat b2 - 0x80 = p" and d3: "unat b3 - 0x80 = q" and d4: "unat b4 - 0x80 = r"
    by (simp_all add: b2 b3 b4)
  have "utf8_decode 0 0 0x80 0xBF (b1 # b2 # b3 # b4 # rest) =
          utf8_decode h (Suc (Suc (Suc 0))) L U (b2 # b3 # b4 # rest)"
    using decode_lead4 [of b1 0 "0x80" "0xBF" "b2 # b3 # b4 # rest"] b1 ob
    by (simp add: L_def U_def numeral_3_eq_3)
  also have "\<dots> = utf8_decode (h * 64 + (unat b2 - 0x80)) (Suc (Suc 0)) 0x80 0xBF (b3 # b4 # rest)"
    by (rule decode_cont [OF L U])
  also have "\<dots> = utf8_decode ((h * 64 + p) * 64 + (unat b3 - 0x80)) (Suc 0) 0x80 0xBF (b4 # rest)"
    unfolding d2 by (rule decode_cont) (use q in \<open>simp_all add: b3\<close>)
  also have "\<dots> = (((h * 64 + p) * 64 + q) * 64 + (unat b4 - 0x80)) # utf8_decode 0 0 0x80 0xBF rest"
    unfolding d3 by (rule decode_last) (use r in \<open>simp_all add: b4\<close>)
  finally show ?thesis unfolding b cp' d4 .
qed

lemma decode_scalar:
  assumes "is_scalar cp"
  shows "utf8_decode 0 0 0x80 0xBF (utf8_bytes cp @ rest) = cp # utf8_decode 0 0 0x80 0xBF rest"
proof -
  consider "cp < 0x80" | "0x80 \<le> cp \<and> cp < 0x800" | "0x800 \<le> cp \<and> cp < 0x10000"
    | "0x10000 \<le> cp" by linarith
  then show ?thesis
    using assms decode_one decode_two decode_three decode_four
    by cases (auto simp: is_scalar_def)
qed

lemma decode_scalars:
  "\<forall>c \<in> set cps. is_scalar c \<Longrightarrow>
     utf8_decode 0 0 0x80 0xBF (concat (map utf8_bytes cps)) = cps"
  by (induction cps) (simp_all add: decode_scalar utf8_decode.simps)

lemma decode_encode: "utf8_decode 0 0 0x80 0xBF (TextEncoder_encode s) = scalar_values s"
  using decode_scalars [of "scalar_values s"] scalar_values_scalar
  by (simp add: TextEncoder_encode_def)

lemma utf16_units_pair:
  assumes "is_high_surrogate u" "is_low_surrogate v"
  shows "utf16_units (0x10000 + (unat u - 0xD800) * 0x400 + (unat v - 0xDC00)) = [u, v]"
proof -
  define x y where "x = unat u - 0xD800" and "y = unat v - 0xDC00"
  have x: "0xD800 + x = unat u" and y: "0xDC00 + y = unat v" and y4: "y < 0x400"
    using assms unfolding is_high_surrogate_def is_low_surrogate_def x_def y_def by linarith+
  have dm: "(x * 0x400 + y) div 0x400 = x" "(x * 0x400 + y) mod 0x400 = y"
    using div_mod_digit [OF y4, of x] by simp_all
  have "utf16_units (0x10000 + x * 0x400 + y) =
          [of_nat (0xD800 + (x * 0x400 + y) div 0x400), of_nat (0xDC00 + (x * 0x400 + y) mod 0x400)]"
    by (simp add: utf16_units_def)
  also have "\<dots> = [of_nat (unat u), of_nat (unat v)]"
    unfolding dm x y ..
  finally show ?thesis
    by (simp add: x_def y_def)
qed

lemma utf16_units_unit:
  "utf16_units (unat (u :: 16 word)) = [u]"
  using unat_unit_lt [of u] by (simp add: utf16_units_def)

lemma utf16_scalar_values:
  "utf16_wellformed s \<Longrightarrow> concat (map utf16_units (scalar_values s)) = s"
proof (induction s rule: scalar_values.induct)
  case 1
  then show ?case by simp
next
  case (2 u)
  then show ?case by (simp add: utf16_units_unit)
next
  case (3 u v us)
  show ?case
  proof (cases "is_high_surrogate u")
    case True
    then show ?thesis
      using 3 by (simp add: utf16_units_pair)
  next
    case False
    then show ?thesis
      using 3 by (simp add: utf16_units_unit)
  qed
qed

lemma unat_eq_bom:
  assumes "unat (u :: 16 word) = 0xFEFF"
  shows "u = 0xFEFF"
proof -
  have "(of_nat (unat u) :: 16 word) = of_nat 0xFEFF"
    using assms by simp
  then show ?thesis by simp
qed

lemma scalar_values_head:
  assumes "s \<noteq> []" "hd s \<noteq> 0xFEFF"
  shows "hd (scalar_values s) \<noteq> 0xFEFF \<and> scalar_values s \<noteq> []"
proof (cases s rule: scalar_values.cases)
  case 1
  then show ?thesis using assms by simp
next
  case (2 u)
  then show ?thesis using assms unat_eq_bom [of u] by auto
next
  case (3 u v us)
  have "0x10000 + (unat u - 0xD800) * 0x400 + (unat v - 0xDC00) \<noteq> 0xFEFF"
    by linarith
  then show ?thesis using assms 3 unat_eq_bom [of u] by auto
qed

lemma strip_bom_scalar_values:
  assumes "s = [] \<or> hd s \<noteq> 0xFEFF"
  shows "strip_bom (scalar_values s) = scalar_values s"
proof (cases "s = []")
  case True
  then show ?thesis by (simp add: strip_bom_def)
next
  case False
  then have "hd (scalar_values s) \<noteq> 0xFEFF \<and> scalar_values s \<noteq> []"
    using assms scalar_values_head by blast
  then show ?thesis
    by (cases "scalar_values s") (auto simp: strip_bom_def)
qed

lemma decode_of_encode:
  "TextDecoder_decode (TextEncoder_encode s) =
     concat (map utf16_units (strip_bom (scalar_values s)))"
  by (simp add: TextDecoder_decode_def decode_encode)

lemma wellformed_roundtrip:
  assumes "utf16_wellformed s" and "s = [] \<or> hd s \<noteq> 0xFEFF"
  shows "TextDecoder_decode (TextEncoder_encode s) = s"
  by (simp add: decode_of_encode strip_bom_scalar_values [OF assms(2)]
      utf16_scalar_values [OF assms(1)])

subsection \<open>Encrypting and decrypting\<close>

text \<open>
  Whatever the cipher, as long as AES-GCM decryption returns what was encrypted under the same
  key and IV, a blob that \<open>encryptMessage\<close> returns decrypts to the text as \<^verbatim>\<open>TextEncoder\<close>
  and \<^verbatim>\<open>TextDecoder\<close> pass it on: lone surrogates replaced by U+FFFD, a leading byte order
  mark removed.
\<close>

lemma returned_blob_decrypts:
  assumes "encryptMessage pf rnd P C = Inr blob"
    and "aes_gcm_decrypt pf (getKey pf C) (random_iv rnd)
             (aes_gcm_encrypt pf (getKey pf C) (random_iv rnd) (TextEncoder_encode P))
           = Some (TextEncoder_encode P)"
  shows "decryptMessage_try pf blob C =
           Inr (concat (map utf16_units (strip_bom (scalar_values P))))"
  using assms(2)
  by (simp add: encryptMessage_returns [OF assms(1)] decryptMessage_try_encrypted
      decode_of_encode)

lemma returned_blob_rejected:
  assumes "encryptMessage pf rnd P Ca = Inr blob"
    and "aes_gcm_decrypt pf (getKey pf Cb) (random_iv rnd)
             (aes_gcm_encrypt pf (getKey pf Ca) (random_iv rnd) (TextEncoder_encode P)) = None"
  shows "decryptMessage_try pf blob Cb = Inl OperationError"
  using assms(2)
  by (simp add: encryptMessage_returns [OF assms(1)] decryptMessage_try_encrypted)

lemma text_mixed_ok: "utf16_wellformed text_mixed" "text_mixed = [] \<or> hd text_mixed \<noteq> 0xFEFF"
  by (simp_all add: text_mixed_def is_high_surrogate_def is_low_surrogate_def)

lemma atob_bang: "atob (js ''!'') = Inl InvalidCharacterError"
  by (simp add: atob_def js_def strip_padding_def ascii_whitespace_def)

lemma decryptMessage_caught:
  "decryptMessage_try pf blob C = Inl err \<Longrightarrow> decryptMessage pf blob C = decrypt_failed"
  by (simp add: decryptMessage_def)

lemma decryptMessage_atob_fails:
  "atob s = Inl err \<Longrightarrow> decryptMessage_try pf s C = Inl err"
  by (simp add: decryptMessage_try_def Let_def)

lemma decryptMessage_gcm_rejects:
  "atob s = Inr bin \<Longrightarrow>
   aes_gcm_decrypt pf (getKey pf C) (take 12 (map ucast bin)) (drop 12 (map ucast bin)) = None \<Longrightarrow>
   decryptMessage_try pf s C = Inl OperationError"
  by (simp add: decryptMessage_try_def Let_def)

lemma length_standin_tag: "length (standin_tag k iv) = 16"
  by (simp add: standin_tag_def)

lemma standin_rejects:
  assumes "standin_tag k' iv \<noteq> standin_tag k iv"
  shows "aes_gcm_decrypt standin_platform k' iv (aes_gcm_encrypt standin_platform k iv m) = None"
  using assms by (simp add: standin_platform_def length_standin_tag)

lemma encode_code_A: "TextEncoder_encode code_A = [65, 65, 65, 65, 65, 65]"
  by (simp add: code_A_def js_def TextEncoder_encode_def is_high_surrogate_def
      is_low_surrogate_def utf8_bytes_def)

lemma encode_code_B: "TextEncoder_encode code_B = [65, 65, 65, 65, 65, 66]"
  by (simp add: code_B_def js_def TextEncoder_encode_def is_high_surrogate_def
      is_low_surrogate_def utf8_bytes_def)

lemma standin_tags_differ:
  "standin_tag (getKey standin_platform code_B) iv \<noteq> standin_tag (getKey standin_platform code_A) iv"
  by (simp add: standin_tag_def getKey_def standin_platform_def encode_code_A encode_code_B)

lemma standin_wrong_key:
  "aes_gcm_decrypt standin_platform (getKey standin_platform code_B) iv
     (aes_gcm_encrypt standin_platform (getKey standin_platform code_A) iv m) = None"
  by (rule standin_rejects [OF standin_tags_differ])

lemma atob_truncated: "atob (js ''aGk='') = Inr (js ''hi'')"
  by (simp add: atob_def js_def strip_padding_def ascii_whitespace_def base64_index_def
      base64_alphabet_def upt_conv_Cons)

lemma standin_truncated:
  "aes_gcm_decrypt standin_platform k (take 12 (map ucast (js ''hi'')))
     (drop 12 (map ucast (js ''hi''))) = None"
  by (simp add: standin_platform_def js_def)

text \<open>The texts of the examples, encoded, are a few bytes long.\<close>

lemma length_encoded:
  "length (TextEncoder_encode [0xD800]) \<le> 65508"
  "length (TextEncoder_encode [0xFEFF, 0x68, 0x69]) \<le> 65508"
  "length (TextEncoder_encode text_mixed) \<le> 65508"
  "length (TextEncoder_encode decrypt_failed) \<le> 65508"
  by (simp_all add: TextEncoder_encode_def text_mixed_def js_sentinel is_high_surrogate_def
      is_low_surrogate_def utf8_bytes_def)

lemma standin_returns:
  assumes "length (TextEncoder_encode P) \<le> 65508"
  shows "\<exists>blob. encryptMessage standin_platform rnd P C = Inr blob"
  using encryptMessage_blob [where pf = standin_platform, OF standin_fits [OF assms]]
  by blast

text \<open>
  C3, as the claim states it, fails for two kinds of plaintext, whatever the room code. The
  cipher used to run the module here returns every plaintext it encrypted, and still the
  string that consists of the lone surrogate U+D800 comes back as U+FFFD, and the string
  U+FEFF \<open>hi\<close> comes back as \<open>hi\<close>.
\<close>

theorem roundtrip_replaced_counterexample:
  "(\<forall>k iv m. aes_gcm_decrypt standin_platform k iv (aes_gcm_encrypt standin_platform k iv m)
       = Some m) \<and>
   (\<exists>blob. encryptMessage standin_platform (\<lambda>i. 7) [0xD800] code_A = Inr blob \<and>
            decryptMessage standin_platform blob code_A = [0xFFFD]) \<and>
   (\<exists>blob. encryptMessage standin_platform (\<lambda>i. 7) [0xFEFF, 0x68, 0x69] code_A = Inr blob \<and>
            decryptMessage standin_platform blob code_A = [0x68, 0x69])"
proof -
  obtain b1 where b1: "encryptMessage standin_platform (\<lambda>i. 7) [0xD800] code_A = Inr b1"
    using standin_returns [OF length_encoded(1)] by blast
  obtain b2 where b2: "encryptMessage standin_platform (\<lambda>i. 7) [0xFEFF, 0x68, 0x69] code_A = Inr b2"
    using standin_returns [OF length_encoded(2)] by blast
  have "decryptMessage_try standin_platform b1 code_A = Inr [0xFFFD]"
    using returned_blob_decrypts [OF b1 standin_inverts] lone_surrogate
    by (simp add: decode_of_encode)
  moreover have "decryptMessage_try standin_platform b2 code_A = Inr [0x68, 0x69]"
    using returned_blob_decrypts [OF b2 standin_inverts] leading_bom
    by (simp add: decode_of_encode)
  ultimately show ?thesis
    using b1 b2 standin_inverts by (auto simp: decryptMessage_def)
qed

text \<open>
  C3, amended. For every plaintext P that is well-formed UTF-16 and does not begin with
  U+FEFF, and every room code C, such that the IV and the ciphertext of P together are no more
  bytes than the engine accepts as arguments of one call: if AES-GCM decryption under the
  key derived from C returns the bytes that were encrypted under that key and the IV of the
  call, then \<open>encryptMessage\<close> returns a base64 string and \<open>decryptMessage\<close> of that string
  with the same C returns exactly P.
\<close>

theorem encrypt_decrypt_roundtrip:
  assumes "utf16_wellformed P" and "P = [] \<or> hd P \<noteq> 0xFEFF"
    and "length (random_iv rnd @
           aes_gcm_encrypt pf (getKey pf C) (random_iv rnd) (TextEncoder_encode P))
         \<le> max_arguments pf"
    and "aes_gcm_decrypt pf (getKey pf C) (random_iv rnd)
           (aes_gcm_encrypt pf (getKey pf C) (random_iv rnd) (TextEncoder_encode P))
         = Some (TextEncoder_encode P)"
  shows "\<exists>blob. encryptMessage pf rnd P C = Inr blob \<and> decryptMessage pf blob C = P"
proof -
  have same: "concat (map utf16_units (strip_bom (scalar_values P))) = P"
    using wellformed_roundtrip [OF assms(1,2)] by (simp add: decode_of_encode)
  obtain blob where blob: "encryptMessage pf rnd P C = Inr blob"
    using encryptMessage_blob [OF assms(3)] by blast
  have "decryptMessage_try pf blob C = Inr P"
    using returned_blob_decrypts [OF blob assms(4)] same by simp
  then show ?thesis
    using blob by (auto simp: decryptMessage_def)
qed

theorem encrypt_decrypt_roundtrip_witness:
  "utf16_wellformed text_mixed \<and> (text_mixed = [] \<or> hd text_mixed \<noteq> 0xFEFF) \<and>
   length (random_iv (\<lambda>i. 7) @
      aes_gcm_encrypt standin_platform (getKey standin_platform code_A) (random_iv (\<lambda>i. 7))
         (TextEncoder_encode text_mixed)) \<le> max_arguments standin_platform \<and>
   aes_gcm_decrypt standin_platform (getKey standin_platform code_A) (random_iv (\<lambda>i. 7))
      (aes_gcm_encrypt standin_platform (getKey standin_platform code_A) (random_iv (\<lambda>i. 7))
         (TextEncoder_encode text_mixed))
     = Some (TextEncoder_encode text_mixed) \<and>
   (\<exists>blob. encryptMessage standin_platform (\<lambda>i. 7) text_mixed code_A = Inr blob \<and>
            decryptMessage standin_platform blob code_A = text_mixed)"
  using encrypt_decrypt_roundtrip [where pf = standin_platform and C = code_A
      and rnd = "\<lambda>i. 7" and P = text_mixed,
      OF text_mixed_ok standin_fits [OF length_encoded(3)] standin_inverts]
    text_mixed_ok standin_fits [OF length_encoded(3)] standin_inverts
  by simp

text \<open>
  C4, as the claim states it, fails: the failure is not a typed result but the string
  \<^verbatim>\<open>[Message could not be decrypted]\<close>, which is itself a plaintext. Encrypted under the code
  \<open>AAAAAA\<close> and decrypted under \<open>AAAAAB\<close>, the cipher rejects the key, the exception is
  caught, and the value returned is that string: the plaintext P.
\<close>

theorem wrong_key_returns_plaintext_counterexample:
  "code_A \<noteq> code_B \<and>
   (\<exists>blob. encryptMessage standin_platform (\<lambda>i. 7) decrypt_failed code_A = Inr blob \<and>
            decryptMessage_try standin_platform blob code_B = Inl OperationError \<and>
            decryptMessage standin_platform blob code_B = decrypt_failed)"
proof -
  have ne: "code_A \<noteq> code_B" by (simp add: code_A_def code_B_def js_def)
  obtain blob where blob:
      "encryptMessage standin_platform (\<lambda>i. 7) decrypt_failed code_A = Inr blob"
    using standin_returns [OF length_encoded(4)] by blast
  have "decryptMessage_try standin_platform blob code_B = Inl OperationError"
    by (rule returned_blob_rejected [OF blob standin_wrong_key])
  then show ?thesis
    using ne blob by (auto simp: decryptMessage_def)
qed

text \<open>
  C4, amended. \<open>decryptMessage\<close> never throws, and it returns the fixed string
  \<^verbatim>\<open>[Message could not be decrypted]\<close> (an ordinary string, equal to P when P is that
  string) whenever \<^verbatim>\<open>atob\<close> rejects its input, whenever AES-GCM rejects the bytes of its
  input under the key of the given room code (as for a truncated ciphertext), and in particular
  for every blob that \<open>encryptMessage\<close> returned for a plaintext P under a code Ca, whenever
  AES-GCM rejects, under the key derived from a code Cb, the ciphertext of P under Ca.
\<close>

theorem decryptMessage_fails_closed:
  "(atob s = Inl err \<longrightarrow> decryptMessage pf s C = decrypt_failed) \<and>
   (atob s = Inr bin \<and>
    aes_gcm_decrypt pf (getKey pf C) (take 12 (map ucast bin)) (drop 12 (map ucast bin)) = None
      \<longrightarrow> decryptMessage pf s C = decrypt_failed) \<and>
   (encryptMessage pf rnd P Ca = Inr blob \<and>
    aes_gcm_decrypt pf (getKey pf Cb) (random_iv rnd)
      (aes_gcm_encrypt pf (getKey pf Ca) (random_iv rnd) (TextEncoder_encode P)) = None
      \<longrightarrow> decryptMessage pf blob Cb = decrypt_failed)"
proof (intro conjI impI)
  assume "atob s = Inl err"
  then show "decryptMessage pf s C = decrypt_failed"
    by (simp add: decryptMessage_caught [OF decryptMessage_atob_fails])
next
  assume "atob s = Inr bin \<and>
    aes_gcm_decrypt pf (getKey pf C) (take 12 (map ucast bin)) (drop 12 (map ucast bin)) = None"
  then show "decryptMessage pf s C = decrypt_failed"
    using decryptMessage_caught [OF decryptMessage_gcm_rejects] by blast
next
  assume "encryptMessage pf rnd P Ca = Inr blob \<and>
    aes_gcm_decrypt pf (getKey pf Cb) (random_iv rnd)
      (aes_gcm_encrypt pf (getKey pf Ca) (random_iv rnd) (TextEncoder_encode P)) = None"
  then show "decryptMessage pf blob Cb = decrypt_failed"
    using decryptMessage_caught [OF returned_blob_rejected] by blast
qed

theorem decryptMessage_fails_closed_witness:
  "atob (js ''!'') = Inl InvalidCharacterError \<and>
   decryptMessage standin_platform (js ''!'') code_B = decrypt_failed \<and>
   atob (js ''aGk='') = Inr (js ''hi'') \<and>
   aes_gcm_decrypt standin_platform (getKey standin_platform code_B)
      (take 12 (map ucast (js ''hi''))) (drop 12 (map ucast (js ''hi''))) = None \<and>
   decryptMessage standin_platform (js ''aGk='') code_B = decrypt_failed \<and>
   aes_gcm_decrypt standin_platform (getKey standin_platform code_B) (random_iv (\<lambda>i. 7))
      (aes_gcm_encrypt standin_platform (getKey standin_platform code_A) (random_iv (\<lambda>i. 7))
         (TextEncoder_encode text_mixed)) = None \<and>
   (\<exists>blob. encryptMessage standin_platform (\<lambda>i. 7) text_mixed code_A = Inr blob \<and>
            decryptMessage standin_platform blob code_B = decrypt_failed)"
proof -
  obtain blob where blob:
      "encryptMessage standin_platform (\<lambda>i. 7) text_mixed code_A = Inr blob"
    using standin_returns [OF length_encoded(3)] by blast
  show ?thesis
    using decryptMessage_fails_closed [where pf = standin_platform and s = "js ''!''"
        and err = InvalidCharacterError and C = code_B and Ca = code_A and Cb = code_B
        and rnd = "\<lambda>i. 7" and P = text_mixed and blob = blob]
      decryptMessage_fails_closed [where pf = standin_platform and s = "js ''aGk=''"
        and bin = "js ''hi''" and C = code_B and Ca = code_A and Cb = code_B
        and rnd = "\<lambda>i. 7" and P = text_mixed and blob = blob]
      atob_bang atob_truncated standin_truncated standin_wrong_key blob
    by auto
qed

text \<open>
  C10. \<open>decryptMessage\<close> returns a string on every input: the value of the \<^verbatim>\<open>try\<close> block
  when it completes, and exactly \<^verbatim>\<open>[Message could not be decrypted]\<close> for every exception.
  That string is a possible plaintext: when its IV and ciphertext are within the engine's
  bound on arguments and AES-GCM decryption returns what was encrypted, the encryption of the
  string decrypts successfully to the same value that \<open>decryptMessage\<close> returns for an input
  on which \<^verbatim>\<open>atob\<close> throws, so the caller cannot tell the two apart.
\<close>

theorem decryptMessage_sentinel:
  assumes "aes_gcm_decrypt pf (getKey pf C) (random_iv rnd)
             (aes_gcm_encrypt pf (getKey pf C) (random_iv rnd) (TextEncoder_encode decrypt_failed))
           = Some (TextEncoder_encode decrypt_failed)"
    and "length (random_iv rnd @
           aes_gcm_encrypt pf (getKey pf C) (random_iv rnd) (TextEncoder_encode decrypt_failed))
         \<le> max_arguments pf"
  shows "(\<forall>blob err. decryptMessage_try pf blob C = Inl err \<longrightarrow>
            decryptMessage pf blob C = decrypt_failed) \<and>
         (\<forall>blob t. decryptMessage_try pf blob C = Inr t \<longrightarrow> decryptMessage pf blob C = t) \<and>
         (\<exists>good bad.
            encryptMessage pf rnd decrypt_failed C = Inr good \<and>
            decryptMessage_try pf good C = Inr decrypt_failed \<and>
            decryptMessage_try pf bad C = Inl InvalidCharacterError \<and>
            decryptMessage pf good C = decrypt_failed \<and>
            decryptMessage pf bad C = decrypt_failed)"
proof -
  obtain good where g1: "encryptMessage pf rnd decrypt_failed C = Inr good"
    using encryptMessage_blob [OF assms(2)] by blast
  have g2: "decryptMessage_try pf good C = Inr decrypt_failed"
    using returned_blob_decrypts [OF g1 assms(1)] sentinel_roundtrip
    by (simp add: decode_of_encode)
  have b: "decryptMessage_try pf (js ''!'') C = Inl InvalidCharacterError"
    by (rule decryptMessage_atob_fails [OF atob_bang])
  have "\<exists>good bad.
            encryptMessage pf rnd decrypt_failed C = Inr good \<and>
            decryptMessage_try pf good C = Inr decrypt_failed \<and>
            decryptMessage_try pf bad C = Inl InvalidCharacterError \<and>
            decryptMessage pf good C = decrypt_failed \<and>
            decryptMessage pf bad C = decrypt_failed"
    apply (rule exI [of _ good])
    apply (rule exI [of _ "js ''!''"])
    using g1 g2 b by (simp add: decryptMessage_def)
  then show ?thesis
    by (simp add: decryptMessage_def)
qed

theorem decryptMessage_sentinel_witness:
  "aes_gcm_decrypt standin_platform (getKey standin_platform code_A) (random_iv (\<lambda>i. 7))
      (aes_gcm_encrypt standin_platform (getKey standin_platform code_A) (random_iv (\<lambda>i. 7))
         (TextEncoder_encode decrypt_failed))
     = Some (TextEncoder_encode decrypt_failed) \<and>
   length (random_iv (\<lambda>i. 7) @
      aes_gcm_encrypt standin_platform (getKey standin_platform code_A) (random_iv (\<lambda>i. 7))
         (TextEncoder_encode decrypt_failed)) \<le> max_arguments standin_platform \<and>
   (\<exists>good bad.
      encryptMessage standin_platform (\<lambda>i. 7) decrypt_failed code_A = Inr good \<and>
      decryptMessage_try standin_platform good code_A = Inr decrypt_failed \<and>
      decryptMessage_try standin_platform bad code_A = Inl InvalidCharacterError \<and>
      decryptMessage standin_platform good code_A = decryptMessage standin_platform bad code_A)"
proof -
  from decryptMessage_sentinel [where pf = standin_platform and C = code_A
      and rnd = "\<lambda>i. 7", OF standin_inverts standin_fits [OF length_encoded(4)]]
  obtain good bad where
      "encryptMessage standin_platform (\<lambda>i. 7) decrypt_failed code_A = Inr good"
      "decryptMessage_try standin_platform good code_A = Inr decrypt_failed"
      "decryptMessage_try standin_platform bad code_A = Inl InvalidCharacterError"
      "decryptMessage standin_platform good code_A = decrypt_failed"
      "decryptMessage standin_platform bad code_A = decrypt_failed"
    by blast
  then show ?thesis
    using standin_inverts standin_fits [OF length_encoded(4)] by auto
qed


end
